theory Spec2Isabelle
  imports Main
begin

section \<open>The abstract machine under \<^verbatim>\<open>vector.h\<close>\<close>

text \<open>
  \<^verbatim>\<open>size_t\<close> is a 64-bit unsigned integer.  Sizes are natural numbers and every
  arithmetic operation the source performs on them is written with its wrap-around.
\<close>

definition size_t_add :: "nat \<Rightarrow> nat \<Rightarrow> nat" where
  "size_t_add a b = (a + b) mod 2 ^ 64"

definition size_t_sub :: "nat \<Rightarrow> nat \<Rightarrow> nat" where
  "size_t_sub a b = (2 ^ 64 + a - b) mod 2 ^ 64"

definition size_t_mul :: "nat \<Rightarrow> nat \<Rightarrow> nat" where
  "size_t_mul a b = (a * b) mod 2 ^ 64"

text \<open>
  A \<^verbatim>\<open>T*\<close> is a block address together with an element offset.  Block \<open>0\<close> is never
  handed out by the allocator, so \<open>(0, 0)\<close> is the null pointer.  A pointer moved below
  the start of its block addresses no storage; it is mapped into block \<open>0\<close>, where every
  access is flagged.
\<close>

type_synonym ptr = "nat \<times> nat"

definition nullptr :: ptr where
  "nullptr = (0, 0)"

definition ptr_add :: "ptr \<Rightarrow> nat \<Rightarrow> ptr" where
  "ptr_add p k = (fst p, snd p + k)"

definition ptr_sub :: "ptr \<Rightarrow> nat \<Rightarrow> ptr" where
  "ptr_sub p k = (if k \<le> snd p then (fst p, snd p - k) else nullptr)"

definition ptr_diff :: "ptr \<Rightarrow> ptr \<Rightarrow> nat" where
  "ptr_diff p q = size_t_sub (snd p) (snd q)"

text \<open>
  The element type \<^verbatim>\<open>T\<close> is a parameter: the two traits the source queries with
  \<^verbatim>\<open>if constexpr\<close>, the trait in the \<^verbatim>\<open>noexcept\<close> clause of \<^verbatim>\<open>Erase\<close>, the value a
  moved-from object is left with, and the value of \<^verbatim>\<open>T()\<close>.
\<close>

record 'a elem_type =
  is_nothrow_move_constructible :: bool
  is_copy_constructible :: bool
  is_nothrow_move_assignable :: bool
  moved_from :: "'a \<Rightarrow> 'a"
  value_init :: 'a

datatype 'a slot = Raw | Live 'a

datatype loc = Cell ptr | Local

datatype event =
    Allocated nat nat
  | Freed nat
  | Constructed loc
  | ValueConstructed loc
  | CopyConstructed loc loc
  | MoveConstructed loc loc
  | CopyAssigned loc loc
  | MoveAssigned loc loc
  | Destroyed loc

datatype exn = bad_alloc | element_failure

record RawMemory =
  buffer_m :: ptr
  capacity_m :: nat

record Vector =
  data_m :: RawMemory
  size_m :: nat

text \<open>
  The machine state: the raw storage (a cell is absent, raw, or holds a live object),
  the number of blocks handed out so far, the scripts that say which of the coming
  allocations and which of the coming potentially-throwing element operations fail,
  the log of everything done to storage and objects, a flag raised when the program
  leaves defined behaviour (an object destroyed where none lives, an object built
  outside raw storage, a dead object read), and the \<^verbatim>\<open>Vector\<close> objects by address.
\<close>

record 'a machine =
  heap :: "ptr \<Rightarrow> 'a slot option"
  allocated :: nat
  oom :: "bool list"
  faults :: "bool list"
  trace :: "event list"
  ub :: bool
  objs :: "nat \<Rightarrow> Vector"

type_synonym ('a, 'r) prog = "'a machine \<Rightarrow> (exn + 'r) \<times> 'a machine"

definition ret :: "'r \<Rightarrow> ('a, 'r) prog" where
  "ret r s = (Inr r, s)"

definition and_then :: "('a, 'r) prog \<Rightarrow> ('r \<Rightarrow> ('a, 'q) prog) \<Rightarrow> ('a, 'q) prog" where
  "and_then m f s = (case m s of (Inl e, s') \<Rightarrow> (Inl e, s') | (Inr r, s') \<Rightarrow> f r s')"

definition step :: "('a machine \<Rightarrow> 'a machine) \<Rightarrow> ('a, unit) prog" where
  "step f s = (Inr (), f s)"

text \<open>
  \<open>on_exception m h\<close>: when \<open>m\<close> throws, \<open>h\<close> runs (the destructor of a local that
  goes out of scope, or a \<^verbatim>\<open>catch (...)\<close> block ending in \<^verbatim>\<open>throw;\<close>) and the exception
  goes on.  \<open>at_scope_exit m h\<close>: \<open>h\<close> runs however \<open>m\<close> ends.
\<close>

definition on_exception :: "('a, 'r) prog \<Rightarrow> ('a machine \<Rightarrow> 'a machine) \<Rightarrow> ('a, 'r) prog" where
  "on_exception m h s = (case m s of (Inl e, s') \<Rightarrow> (Inl e, h s') | (Inr r, s') \<Rightarrow> (Inr r, s'))"

definition at_scope_exit :: "('a, 'r) prog \<Rightarrow> ('a machine \<Rightarrow> 'a machine) \<Rightarrow> ('a, 'r) prog" where
  "at_scope_exit m h s = (case m s of (r, s') \<Rightarrow> (r, h s'))"

definition fetch :: "nat \<Rightarrow> ('a, Vector) prog" where
  "fetch this s = (Inr (objs s this), s)"

definition store :: "nat \<Rightarrow> Vector \<Rightarrow> 'a machine \<Rightarrow> 'a machine" where
  "store this v s = s\<lparr>objs := (objs s)(this := v)\<rparr>"

definition log :: "event \<Rightarrow> 'a machine \<Rightarrow> 'a machine" where
  "log e s = s\<lparr>trace := trace s @ [e]\<rparr>"

definition undefined_behaviour :: "'a machine \<Rightarrow> 'a machine" where
  "undefined_behaviour s = s\<lparr>ub := True\<rparr>"

definition write_cell :: "ptr \<Rightarrow> 'a slot \<Rightarrow> 'a machine \<Rightarrow> 'a machine" where
  "write_cell p c s = s\<lparr>heap := (heap s)(p \<mapsto> c)\<rparr>"

subsection \<open>Operations of the element type\<close>

text \<open>A potentially-throwing element operation takes the next entry of the script.\<close>

definition next_fails :: "bool list \<Rightarrow> bool" where
  "next_fails script = (case script of [] \<Rightarrow> False | f # fs \<Rightarrow> f)"

definition may_throw :: "('a, unit) prog" where
  "may_throw s =
     (if next_fails (faults s) then Inl element_failure else Inr (), s\<lparr>faults := tl (faults s)\<rparr>)"

text \<open>An object with value \<open>x\<close> comes to life at \<open>p\<close>, which must be raw storage.\<close>

definition emplace_obj :: "ptr \<Rightarrow> 'a \<Rightarrow> 'a machine \<Rightarrow> 'a machine" where
  "emplace_obj p x s =
     (if heap s p = Some Raw then write_cell p (Live x) s else undefined_behaviour s)"

text \<open>\<^verbatim>\<open>new (p) T(std::forward<Args>(args)...)\<close>, the arguments denoting the value \<open>x\<close>.\<close>

definition construct_at :: "ptr \<Rightarrow> 'a \<Rightarrow> ('a, unit) prog" where
  "construct_at p x =
     and_then may_throw (\<lambda>_. step (\<lambda>s. log (Constructed (Cell p)) (emplace_obj p x s)))"

definition value_construct_at :: "'a elem_type \<Rightarrow> ptr \<Rightarrow> ('a, unit) prog" where
  "value_construct_at T p =
     and_then may_throw
       (\<lambda>_. step (\<lambda>s. log (ValueConstructed (Cell p)) (emplace_obj p (value_init T) s)))"

definition copy_construct_at :: "ptr \<Rightarrow> ptr \<Rightarrow> ('a, unit) prog" where
  "copy_construct_at dst src =
     and_then may_throw (\<lambda>_. step (\<lambda>s.
       case heap s src of
         Some (Live x) \<Rightarrow> log (CopyConstructed (Cell dst) (Cell src)) (emplace_obj dst x s)
       | _ \<Rightarrow> undefined_behaviour s))"

definition move_construct_at :: "'a elem_type \<Rightarrow> ptr \<Rightarrow> ptr \<Rightarrow> ('a, unit) prog" where
  "move_construct_at T dst src =
     and_then (if is_nothrow_move_constructible T then ret () else may_throw) (\<lambda>_. step (\<lambda>s.
       case heap s src of
         Some (Live x) \<Rightarrow>
           log (MoveConstructed (Cell dst) (Cell src))
             (write_cell src (Live (moved_from T x)) (emplace_obj dst x s))
       | _ \<Rightarrow> undefined_behaviour s))"

definition copy_assign_obj :: "ptr \<Rightarrow> ptr \<Rightarrow> ('a, unit) prog" where
  "copy_assign_obj dst src =
     and_then may_throw (\<lambda>_. step (\<lambda>s.
       case (heap s dst, heap s src) of
         (Some (Live y), Some (Live x)) \<Rightarrow>
           log (CopyAssigned (Cell dst) (Cell src)) (write_cell dst (Live x) s)
       | _ \<Rightarrow> undefined_behaviour s))"

definition move_assign_obj :: "'a elem_type \<Rightarrow> ptr \<Rightarrow> ptr \<Rightarrow> ('a, unit) prog" where
  "move_assign_obj T dst src =
     and_then (if is_nothrow_move_assignable T then ret () else may_throw) (\<lambda>_. step (\<lambda>s.
       case (heap s dst, heap s src) of
         (Some (Live y), Some (Live x)) \<Rightarrow>
           log (MoveAssigned (Cell dst) (Cell src))
             (write_cell src (Live (moved_from T x)) (write_cell dst (Live x) s))
       | _ \<Rightarrow> undefined_behaviour s))"

definition destroy_at :: "ptr \<Rightarrow> 'a machine \<Rightarrow> 'a machine" where
  "destroy_at p s =
     log (Destroyed (Cell p))
       (case heap s p of
          Some (Live x) \<Rightarrow> write_cell p Raw s
        | _ \<Rightarrow> undefined_behaviour s)"

text \<open>The automatic object \<^verbatim>\<open>T temp(args...)\<close> of \<^verbatim>\<open>EmplaceInCurrentAlloc\<close>.\<close>

definition construct_local :: "('a, unit) prog" where
  "construct_local = and_then may_throw (\<lambda>_. step (log (Constructed Local)))"

definition destroy_local :: "'a machine \<Rightarrow> 'a machine" where
  "destroy_local = log (Destroyed Local)"

definition move_assign_from_local :: "'a elem_type \<Rightarrow> ptr \<Rightarrow> 'a \<Rightarrow> ('a, unit) prog" where
  "move_assign_from_local T dst x =
     and_then (if is_nothrow_move_assignable T then ret () else may_throw) (\<lambda>_. step (\<lambda>s.
       case heap s dst of
         Some (Live y) \<Rightarrow> log (MoveAssigned (Cell dst) Local) (write_cell dst (Live x) s)
       | _ \<Rightarrow> undefined_behaviour s))"

subsection \<open>The allocator and the algorithms of the standard library\<close>

text \<open>
  \<^verbatim>\<open>operator new\<close> for \<open>n\<close> elements: it fails when the script says so and for every
  request beyond \<^verbatim>\<open>PTRDIFF_MAX\<close>; otherwise it hands out a new block of \<open>n\<close> raw cells.
\<close>

definition operator_new :: "nat \<Rightarrow> ('a, ptr) prog" where
  "operator_new n s =
     (let fail = next_fails (oom s);
          s1 = s\<lparr>oom := tl (oom s)\<rparr>;
          b = Suc (allocated s)
      in if fail \<or> 2 ^ 63 \<le> n then (Inl bad_alloc, s1)
         else (Inr (b, 0),
               log (Allocated b n)
                 (s1\<lparr>heap := (\<lambda>p. if fst p = b then (if snd p < n then Some Raw else None)
                                   else heap s p),
                     allocated := b\<rparr>)))"

definition operator_delete :: "ptr \<Rightarrow> 'a machine \<Rightarrow> 'a machine" where
  "operator_delete buf s =
     (if buf = nullptr then s
      else if snd buf = 0 \<and> heap s buf \<noteq> None
           then log (Freed (fst buf)) (s\<lparr>heap := (\<lambda>p. if fst p = fst buf then None else heap s p)\<rparr>)
           else undefined_behaviour s)"

fun destroy_n :: "ptr \<Rightarrow> nat \<Rightarrow> 'a machine \<Rightarrow> 'a machine" where
  "destroy_n first 0 s = s"
| "destroy_n first (Suc n) s = destroy_n (ptr_add first 1) n (destroy_at first s)"

text \<open>
  The \<^verbatim>\<open>uninitialized_*\<close> algorithms destroy what they have built when a constructor
  throws, and rethrow.  \<open>result\<close> is where the output began, \<open>cur\<close> where it stands.
\<close>

fun uninitialized_copy_loop :: "ptr \<Rightarrow> nat \<Rightarrow> ptr \<Rightarrow> ptr \<Rightarrow> ('a, unit) prog" where
  "uninitialized_copy_loop first 0 result cur s = (Inr (), s)"
| "uninitialized_copy_loop first (Suc n) result cur s =
     (case copy_construct_at cur first s of
        (Inl e, s') \<Rightarrow> (Inl e, destroy_n result (ptr_diff cur result) s')
      | (Inr _, s') \<Rightarrow> uninitialized_copy_loop (ptr_add first 1) n result (ptr_add cur 1) s')"

definition uninitialized_copy_n :: "ptr \<Rightarrow> nat \<Rightarrow> ptr \<Rightarrow> ('a, unit) prog" where
  "uninitialized_copy_n first n result = uninitialized_copy_loop first n result result"

fun uninitialized_move_loop ::
  "'a elem_type \<Rightarrow> ptr \<Rightarrow> nat \<Rightarrow> ptr \<Rightarrow> ptr \<Rightarrow> ('a, unit) prog" where
  "uninitialized_move_loop T first 0 result cur s = (Inr (), s)"
| "uninitialized_move_loop T first (Suc n) result cur s =
     (case move_construct_at T cur first s of
        (Inl e, s') \<Rightarrow> (Inl e, destroy_n result (ptr_diff cur result) s')
      | (Inr _, s') \<Rightarrow> uninitialized_move_loop T (ptr_add first 1) n result (ptr_add cur 1) s')"

definition uninitialized_move_n :: "'a elem_type \<Rightarrow> ptr \<Rightarrow> nat \<Rightarrow> ptr \<Rightarrow> ('a, unit) prog" where
  "uninitialized_move_n T first n result = uninitialized_move_loop T first n result result"

fun uninitialized_value_construct_loop ::
  "'a elem_type \<Rightarrow> ptr \<Rightarrow> nat \<Rightarrow> ptr \<Rightarrow> ('a, unit) prog" where
  "uninitialized_value_construct_loop T first 0 cur s = (Inr (), s)"
| "uninitialized_value_construct_loop T first (Suc n) cur s =
     (case value_construct_at T cur s of
        (Inl e, s') \<Rightarrow> (Inl e, destroy_n first (ptr_diff cur first) s')
      | (Inr _, s') \<Rightarrow> uninitialized_value_construct_loop T first n (ptr_add cur 1) s')"

definition uninitialized_value_construct_n :: "'a elem_type \<Rightarrow> ptr \<Rightarrow> nat \<Rightarrow> ('a, unit) prog" where
  "uninitialized_value_construct_n T first n = uninitialized_value_construct_loop T first n first"

text \<open>
  \<^verbatim>\<open>std::copy\<close>, \<^verbatim>\<open>std::move\<close> and \<^verbatim>\<open>std::move_backward\<close> assign element by element; a
  range whose end lies before its start is outside their contract.
\<close>

fun copy_loop :: "ptr \<Rightarrow> nat \<Rightarrow> ptr \<Rightarrow> ('a, unit) prog" where
  "copy_loop first 0 d_first s = (Inr (), s)"
| "copy_loop first (Suc n) d_first s =
     (case copy_assign_obj d_first first s of
        (Inl e, s') \<Rightarrow> (Inl e, s')
      | (Inr _, s') \<Rightarrow> copy_loop (ptr_add first 1) n (ptr_add d_first 1) s')"

fun move_loop :: "'a elem_type \<Rightarrow> ptr \<Rightarrow> nat \<Rightarrow> ptr \<Rightarrow> ('a, unit) prog" where
  "move_loop T first 0 d_first s = (Inr (), s)"
| "move_loop T first (Suc n) d_first s =
     (case move_assign_obj T d_first first s of
        (Inl e, s') \<Rightarrow> (Inl e, s')
      | (Inr _, s') \<Rightarrow> move_loop T (ptr_add first 1) n (ptr_add d_first 1) s')"

fun move_backward_loop :: "'a elem_type \<Rightarrow> ptr \<Rightarrow> nat \<Rightarrow> ptr \<Rightarrow> ('a, unit) prog" where
  "move_backward_loop T first 0 d_last s = (Inr (), s)"
| "move_backward_loop T first (Suc n) d_last s =
     (case move_assign_obj T (ptr_sub d_last 1) (ptr_add first n) s of
        (Inl e, s') \<Rightarrow> (Inl e, s')
      | (Inr _, s') \<Rightarrow> move_backward_loop T first n (ptr_sub d_last 1) s')"

definition valid_range :: "ptr \<Rightarrow> ptr \<Rightarrow> bool" where
  "valid_range first lst \<longleftrightarrow> fst first = fst lst \<and> snd first \<le> snd lst"

definition std_copy :: "ptr \<Rightarrow> ptr \<Rightarrow> ptr \<Rightarrow> ('a, unit) prog" where
  "std_copy first lst d_first =
     (if valid_range first lst then copy_loop first (ptr_diff lst first) d_first
      else step undefined_behaviour)"

definition std_move :: "'a elem_type \<Rightarrow> ptr \<Rightarrow> ptr \<Rightarrow> ptr \<Rightarrow> ('a, unit) prog" where
  "std_move T first lst d_first =
     (if valid_range first lst then move_loop T first (ptr_diff lst first) d_first
      else step undefined_behaviour)"

definition std_move_backward :: "'a elem_type \<Rightarrow> ptr \<Rightarrow> ptr \<Rightarrow> ptr \<Rightarrow> ('a, unit) prog" where
  "std_move_backward T first lst d_last =
     (if valid_range first lst then move_backward_loop T first (ptr_diff lst first) d_last
      else step undefined_behaviour)"

section \<open>\<^verbatim>\<open>RawMemory<T>\<close>\<close>

definition Allocate :: "nat \<Rightarrow> ('a, ptr) prog" where
  "Allocate n = (if n \<noteq> 0 then operator_new n else ret nullptr)"

definition Deallocate :: "ptr \<Rightarrow> 'a machine \<Rightarrow> 'a machine" where
  "Deallocate buf = operator_delete buf"

definition RawMemory_default :: RawMemory where
  "RawMemory_default = \<lparr>buffer_m = nullptr, capacity_m = 0\<rparr>"

definition RawMemory_ctor :: "nat \<Rightarrow> ('a, RawMemory) prog" where
  "RawMemory_ctor capacity =
     and_then (Allocate capacity) (\<lambda>buf. ret \<lparr>buffer_m = buf, capacity_m = capacity\<rparr>)"

text \<open>The move constructor: the new object, and what is left of \<open>other\<close>.\<close>

definition RawMemory_move_ctor :: "RawMemory \<Rightarrow> RawMemory \<times> RawMemory" where
  "RawMemory_move_ctor other =
     (\<lparr>buffer_m = buffer_m other, capacity_m = capacity_m other\<rparr>,
      other\<lparr>buffer_m := nullptr, capacity_m := 0\<rparr>)"

definition RawMemory_dtor :: "RawMemory \<Rightarrow> 'a machine \<Rightarrow> 'a machine" where
  "RawMemory_dtor m = Deallocate (buffer_m m)"

definition RawMemory_plus :: "RawMemory \<Rightarrow> nat \<Rightarrow> ptr" where
  "RawMemory_plus m offset = ptr_add (buffer_m m) offset"

definition RawMemory_index :: "RawMemory \<Rightarrow> nat \<Rightarrow> ptr" where
  "RawMemory_index m index = ptr_add (buffer_m m) index"

definition RawMemory_Swap :: "RawMemory \<Rightarrow> RawMemory \<Rightarrow> RawMemory \<times> RawMemory" where
  "RawMemory_Swap m other =
     (m\<lparr>buffer_m := buffer_m other, capacity_m := capacity_m other\<rparr>,
      other\<lparr>buffer_m := buffer_m m, capacity_m := capacity_m m\<rparr>)"

definition GetAddress :: "RawMemory \<Rightarrow> ptr" where
  "GetAddress m = buffer_m m"

definition RawMemory_Capacity :: "RawMemory \<Rightarrow> nat" where
  "RawMemory_Capacity m = capacity_m m"

text \<open>
  The move assignment of the \<^verbatim>\<open>data_\<close> members of the vectors at \<open>this\<close> and \<open>rhs\<close>;
  the two members are the same object exactly when the two vectors are.
\<close>

definition RawMemory_move_assign :: "nat \<Rightarrow> nat \<Rightarrow> 'a machine \<Rightarrow> 'a machine" where
  "RawMemory_move_assign this rhs s =
     (if this \<noteq> rhs then
        let s1 = Deallocate (buffer_m (data_m (objs s this))) s;
            r = objs s1 rhs;
            v = objs s1 this;
            s2 = store this (v\<lparr>data_m := (data_m v)\<lparr>buffer_m := buffer_m (data_m r),
                                                     capacity_m := capacity_m (data_m r)\<rparr>\<rparr>) s1
        in store rhs (r\<lparr>data_m := (data_m r)\<lparr>buffer_m := nullptr, capacity_m := 0\<rparr>\<rparr>) s2
      else s)"

section \<open>\<^verbatim>\<open>Vector<T>\<close>\<close>

text \<open>
  A member function takes the address \<open>this\<close> of its object and works on the object
  stored there.  Constructors and the destructor are given on object values, since the
  source also applies them to locals (\<^verbatim>\<open>Vector tmp(rhs)\<close>).
\<close>

definition Vector_default :: Vector where
  "Vector_default = \<lparr>data_m = RawMemory_default, size_m = 0\<rparr>"

definition Vector_begin :: "Vector \<Rightarrow> ptr" where
  "Vector_begin v = GetAddress (data_m v)"

definition Vector_end :: "Vector \<Rightarrow> ptr" where
  "Vector_end v = ptr_add (GetAddress (data_m v)) (size_m v)"

definition Vector_cbegin :: "Vector \<Rightarrow> ptr" where
  "Vector_cbegin v = GetAddress (data_m v)"

definition Vector_cend :: "Vector \<Rightarrow> ptr" where
  "Vector_cend v = ptr_add (GetAddress (data_m v)) (size_m v)"

definition Vector_Size :: "Vector \<Rightarrow> nat" where
  "Vector_Size v = size_m v"

definition Vector_Capacity :: "Vector \<Rightarrow> nat" where
  "Vector_Capacity v = RawMemory_Capacity (data_m v)"

definition Vector_index :: "Vector \<Rightarrow> nat \<Rightarrow> ptr" where
  "Vector_index v index = RawMemory_index (data_m v) index"

definition Vector_dtor :: "Vector \<Rightarrow> 'a machine \<Rightarrow> 'a machine" where
  "Vector_dtor v s = RawMemory_dtor (data_m v) (destroy_n (GetAddress (data_m v)) (size_m v) s)"

definition Vector_ctor_size :: "'a elem_type \<Rightarrow> nat \<Rightarrow> ('a, Vector) prog" where
  "Vector_ctor_size T sz =
     and_then (RawMemory_ctor sz) (\<lambda>d.
       on_exception
         (and_then (uninitialized_value_construct_n T (GetAddress d) sz) (\<lambda>_.
            ret \<lparr>data_m = d, size_m = sz\<rparr>))
         (RawMemory_dtor d))"

definition Vector_copy_ctor :: "Vector \<Rightarrow> ('a, Vector) prog" where
  "Vector_copy_ctor other =
     and_then (RawMemory_ctor (size_m other)) (\<lambda>d.
       on_exception
         (and_then (uninitialized_copy_n (GetAddress (data_m other)) (size_m other) (GetAddress d)) (\<lambda>_.
            ret \<lparr>data_m = d, size_m = size_m other\<rparr>))
         (RawMemory_dtor d))"

definition Vector_move_ctor :: "Vector \<Rightarrow> Vector \<times> Vector" where
  "Vector_move_ctor other =
     (let (d, od) = RawMemory_move_ctor (data_m other)
      in (\<lparr>data_m = d, size_m = size_m other\<rparr>, other\<lparr>data_m := od, size_m := 0\<rparr>))"

definition Vector_Swap_objects :: "Vector \<Rightarrow> Vector \<Rightarrow> Vector \<times> Vector" where
  "Vector_Swap_objects v other =
     (let (d, od) = RawMemory_Swap (data_m v) (data_m other)
      in (v\<lparr>data_m := d, size_m := size_m other\<rparr>, other\<lparr>data_m := od, size_m := size_m v\<rparr>))"

definition Vector_Swap :: "nat \<Rightarrow> nat \<Rightarrow> 'a machine \<Rightarrow> 'a machine" where
  "Vector_Swap this other s =
     (let (v, ov) = Vector_Swap_objects (objs s this) (objs s other)
      in store other ov (store this v s))"

definition Reserve :: "'a elem_type \<Rightarrow> nat \<Rightarrow> nat \<Rightarrow> ('a, unit) prog" where
  "Reserve T this new_capacity =
     and_then (fetch this) (\<lambda>v.
       if new_capacity \<le> RawMemory_Capacity (data_m v) then ret ()
       else
         and_then (RawMemory_ctor new_capacity) (\<lambda>new_data.
           on_exception
             (and_then
                (if is_nothrow_move_constructible T \<or> \<not> is_copy_constructible T
                 then uninitialized_move_n T (GetAddress (data_m v)) (size_m v) (GetAddress new_data)
                 else uninitialized_copy_n (GetAddress (data_m v)) (size_m v) (GetAddress new_data)) (\<lambda>_.
              step (\<lambda>s.
                let s1 = destroy_n (GetAddress (data_m v)) (size_m v) s;
                    (d, nd) = RawMemory_Swap (data_m v) new_data
                in RawMemory_dtor nd (store this (v\<lparr>data_m := d\<rparr>) s1))))
             (RawMemory_dtor new_data)))"

definition EmplaceInNewAlloc :: "'a elem_type \<Rightarrow> nat \<Rightarrow> nat \<Rightarrow> 'a \<Rightarrow> ('a, unit) prog" where
  "EmplaceInNewAlloc T this pos_index x =
     and_then (fetch this) (\<lambda>v.
     and_then (RawMemory_ctor (if size_m v = 0 then 1 else size_t_mul (size_m v) 2)) (\<lambda>new_data.
       on_exception
         (and_then (construct_at (RawMemory_plus new_data pos_index) x) (\<lambda>_.
          and_then
            (if is_nothrow_move_constructible T \<or> \<not> is_copy_constructible T
             then
               and_then (uninitialized_move_n T (Vector_begin v) pos_index (GetAddress new_data)) (\<lambda>_.
                 uninitialized_move_n T (ptr_add (Vector_begin v) pos_index)
                   (size_t_sub (size_m v) pos_index)
                   (ptr_add (ptr_add (GetAddress new_data) pos_index) 1))
             else
               and_then (uninitialized_copy_n (Vector_begin v) pos_index (GetAddress new_data)) (\<lambda>_.
                 uninitialized_copy_n (ptr_add (Vector_begin v) pos_index)
                   (size_t_sub (size_m v) pos_index)
                   (ptr_add (ptr_add (GetAddress new_data) pos_index) 1))) (\<lambda>_.
          step (\<lambda>s.
            let s1 = destroy_n (GetAddress (data_m v)) (size_m v) s;
                (d, nd) = RawMemory_Swap (data_m v) new_data
            in RawMemory_dtor nd (store this (v\<lparr>data_m := d\<rparr>) s1)))))
         (RawMemory_dtor new_data)))"

definition EmplaceInCurrentAlloc :: "'a elem_type \<Rightarrow> nat \<Rightarrow> nat \<Rightarrow> 'a \<Rightarrow> ('a, unit) prog" where
  "EmplaceInCurrentAlloc T this pos_index x =
     and_then (fetch this) (\<lambda>v.
       if pos_index < size_m v then
         and_then construct_local (\<lambda>_.
           at_scope_exit
             (and_then
                (if is_nothrow_move_constructible T \<or> \<not> is_copy_constructible T
                 then move_construct_at T (RawMemory_plus (data_m v) (size_m v))
                        (ptr_sub (RawMemory_plus (data_m v) (size_m v)) 1)
                 else copy_construct_at (RawMemory_plus (data_m v) (size_m v))
                        (ptr_sub (RawMemory_plus (data_m v) (size_m v)) 1)) (\<lambda>_.
              and_then
                (std_move_backward T (ptr_add (Vector_begin v) pos_index)
                   (ptr_sub (Vector_end v) 1) (Vector_end v)) (\<lambda>_.
              move_assign_from_local T (RawMemory_index (data_m v) pos_index) x)))
             destroy_local)
       else construct_at (RawMemory_plus (data_m v) (size_m v)) x)"

definition Emplace :: "'a elem_type \<Rightarrow> nat \<Rightarrow> ptr \<Rightarrow> 'a \<Rightarrow> ('a, ptr) prog" where
  "Emplace T this pos x =
     and_then (fetch this) (\<lambda>v.
       let pos_index = (if pos = RawMemory_plus (data_m v) (size_m v) then size_m v
                        else ptr_diff pos (Vector_begin v))
       in
       and_then
         (if size_m v = RawMemory_Capacity (data_m v)
          then EmplaceInNewAlloc T this pos_index x
          else EmplaceInCurrentAlloc T this pos_index x) (\<lambda>_.
       and_then
         (step (\<lambda>s. store this ((objs s this)\<lparr>size_m := size_t_add (size_m (objs s this)) 1\<rparr>) s)) (\<lambda>_.
       and_then (fetch this) (\<lambda>w. ret (ptr_add (GetAddress (data_m w)) pos_index)))))"

definition Erase :: "'a elem_type \<Rightarrow> nat \<Rightarrow> ptr \<Rightarrow> ('a, ptr) prog" where
  "Erase T this pos =
     and_then (fetch this) (\<lambda>v.
       let pos_index = ptr_diff pos (Vector_cbegin v);
           non_const_pos = ptr_add (Vector_begin v) pos_index
       in
       and_then
         (if pos_index < size_t_sub (size_m v) 1
          then std_move T (ptr_add non_const_pos 1) (Vector_end v) non_const_pos
          else ret ()) (\<lambda>_.
       and_then
         (step (\<lambda>s. store this (v\<lparr>size_m := size_t_sub (size_m v) 1\<rparr>)
                       (destroy_at (ptr_sub (RawMemory_plus (data_m v) (size_m v)) 1) s))) (\<lambda>_.
       and_then (fetch this) (\<lambda>w. ret (ptr_add (Vector_begin w) pos_index)))))"

definition Insert_copy :: "'a elem_type \<Rightarrow> nat \<Rightarrow> ptr \<Rightarrow> 'a \<Rightarrow> ('a, ptr) prog" where
  "Insert_copy T this pos val = Emplace T this pos val"

definition Insert_move :: "'a elem_type \<Rightarrow> nat \<Rightarrow> ptr \<Rightarrow> 'a \<Rightarrow> ('a, ptr) prog" where
  "Insert_move T this pos val = Emplace T this pos val"

definition EmplaceBack :: "'a elem_type \<Rightarrow> nat \<Rightarrow> 'a \<Rightarrow> ('a, ptr) prog" where
  "EmplaceBack T this x = and_then (fetch this) (\<lambda>v. Emplace T this (Vector_end v) x)"

definition PushBack_copy :: "'a elem_type \<Rightarrow> nat \<Rightarrow> 'a \<Rightarrow> ('a, unit) prog" where
  "PushBack_copy T this val = and_then (EmplaceBack T this val) (\<lambda>_. ret ())"

definition PushBack_move :: "'a elem_type \<Rightarrow> nat \<Rightarrow> 'a \<Rightarrow> ('a, unit) prog" where
  "PushBack_move T this val = and_then (EmplaceBack T this val) (\<lambda>_. ret ())"

definition PopBack :: "nat \<Rightarrow> 'a machine \<Rightarrow> 'a machine" where
  "PopBack this s =
     (let v = objs s this;
          s1 = destroy_n (ptr_sub (ptr_add (GetAddress (data_m v)) (size_m v)) 1) 1 s
      in store this (v\<lparr>size_m := size_t_sub (size_m v) 1\<rparr>) s1)"

definition Resize :: "'a elem_type \<Rightarrow> nat \<Rightarrow> nat \<Rightarrow> ('a, unit) prog" where
  "Resize T this new_size =
     and_then (fetch this) (\<lambda>v.
     and_then
       (if new_size > size_m v then
          and_then (Reserve T this new_size) (\<lambda>_.
          and_then (fetch this) (\<lambda>w.
            if is_nothrow_move_constructible T \<or> \<not> is_copy_constructible T
            then uninitialized_value_construct_n T
                   (ptr_add (GetAddress (data_m w)) (size_m w)) (size_t_sub new_size (size_m w))
            else on_exception
                   (uninitialized_value_construct_n T
                      (ptr_add (GetAddress (data_m w)) (size_m w)) (size_t_sub new_size (size_m w)))
                   (destroy_n (ptr_add (GetAddress (data_m w)) (size_m w))
                      (size_t_sub new_size (size_m w)))))
        else step (destroy_n (ptr_add (GetAddress (data_m v)) new_size)
                     (size_t_sub (size_m v) new_size))) (\<lambda>_.
     step (\<lambda>s. store this ((objs s this)\<lparr>size_m := new_size\<rparr>) s)))"

definition Vector_copy_assign :: "'a elem_type \<Rightarrow> nat \<Rightarrow> nat \<Rightarrow> ('a, unit) prog" where
  "Vector_copy_assign T this rhs =
     (if this \<noteq> rhs then
        and_then (fetch this) (\<lambda>v.
        and_then (fetch rhs) (\<lambda>r.
          if size_m r > RawMemory_Capacity (data_m v) then
            and_then (Vector_copy_ctor r) (\<lambda>tmp.
              step (\<lambda>s. let (w, tmp') = Vector_Swap_objects (objs s this) tmp
                         in Vector_dtor tmp' (store this w s)))
          else
            and_then
              (if size_m v > size_m r
               then step (destroy_n (ptr_add (GetAddress (data_m v)) (size_m r))
                            (size_t_sub (size_m v) (size_m r)))
               else ret ()) (\<lambda>_.
            and_then
              (std_copy (GetAddress (data_m r))
                 (ptr_add (GetAddress (data_m r)) (min (size_m v) (size_m r)))
                 (GetAddress (data_m v))) (\<lambda>_.
            and_then
              (if size_m v < size_m r
               then uninitialized_copy_n (ptr_add (GetAddress (data_m r)) (size_m v))
                      (size_t_sub (size_m r) (size_m v))
                      (ptr_add (GetAddress (data_m v)) (size_m v))
               else ret ()) (\<lambda>_.
            step (\<lambda>s. store this ((objs s this)\<lparr>size_m := size_m r\<rparr>) s))))))
      else ret ())"

definition Vector_move_assign :: "nat \<Rightarrow> nat \<Rightarrow> 'a machine \<Rightarrow> 'a machine" where
  "Vector_move_assign this rhs s =
     (if this \<noteq> rhs then
        let s1 = RawMemory_move_assign this rhs s;
            s2 = store this ((objs s1 this)\<lparr>size_m := size_m (objs s1 rhs)\<rparr>) s1
        in store rhs ((objs s2 rhs)\<lparr>size_m := 0\<rparr>) s2
      else s)"

section \<open>The container invariant\<close>

text \<open>
  \<open>block_cells s b n\<close> reads the first \<open>n\<close> cells of block \<open>b\<close>.  The vector \<open>v\<close>
  holds the sequence \<open>xs\<close> in state \<open>s\<close> when its size is the length of \<open>xs\<close>, the size
  does not exceed the capacity, the storage is a block of exactly \<open>capacity\<close> cells
  handed out by the allocator (none for capacity \<open>0\<close>), whose cells \<open>[0, size)\<close> are
  live with the values of \<open>xs\<close> in order and whose cells \<open>[size, capacity)\<close> are raw.
\<close>

definition block_cells :: "'a machine \<Rightarrow> nat \<Rightarrow> nat \<Rightarrow> 'a slot option list" where
  "block_cells s b n = map (\<lambda>i. heap s (b, i)) [0..<n]"

text \<open>\<open>frame s s'\<close>: from \<open>s\<close> to \<open>s'\<close> only the storage, the log and the script of element
  operations may differ.\<close>

definition frame :: "'a machine \<Rightarrow> 'a machine \<Rightarrow> bool" where
  "frame s s' \<longleftrightarrow>
     allocated s' = allocated s \<and> oom s' = oom s \<and> ub s' = ub s \<and> objs s' = objs s"

definition holds :: "'a machine \<Rightarrow> Vector \<Rightarrow> 'a list \<Rightarrow> bool" where
  "holds s v xs \<longleftrightarrow>
     size_m v = length xs \<and>
     size_m v \<le> capacity_m (data_m v) \<and>
     capacity_m (data_m v) < 2 ^ 63 \<and>
     (if capacity_m (data_m v) = 0 then buffer_m (data_m v) = nullptr
      else snd (buffer_m (data_m v)) = 0 \<and> 0 < fst (buffer_m (data_m v)) \<and>
           fst (buffer_m (data_m v)) \<le> allocated s) \<and>
     block_cells s (fst (buffer_m (data_m v))) (capacity_m (data_m v)) =
       map (\<lambda>x. Some (Live x)) xs @ replicate (capacity_m (data_m v) - length xs) (Some Raw)"

section \<open>Concrete element types and machine states\<close>

text \<open>
  Three element types over the naturals, a moved-from object holding \<open>0\<close>: one whose
  move constructor cannot throw, one that is copyable with a move constructor that may
  throw, and one that is move-only with a move constructor that may throw.
\<close>

definition T_nothrow :: "nat elem_type" where
  "T_nothrow = \<lparr>is_nothrow_move_constructible = True, is_copy_constructible = True,
     is_nothrow_move_assignable = True, moved_from = (\<lambda>_. 0), value_init = 0\<rparr>"

definition T_throwing_move :: "nat elem_type" where
  "T_throwing_move = \<lparr>is_nothrow_move_constructible = False, is_copy_constructible = True,
     is_nothrow_move_assignable = False, moved_from = (\<lambda>_. 0), value_init = 0\<rparr>"

definition T_move_only :: "nat elem_type" where
  "T_move_only = \<lparr>is_nothrow_move_constructible = False, is_copy_constructible = False,
     is_nothrow_move_assignable = False, moved_from = (\<lambda>_. 0), value_init = 0\<rparr>"

text \<open>
  \<open>two_vectors xs cx ys cy fs\<close>: the vector at address \<open>0\<close> holds \<open>xs\<close> in block \<open>1\<close>
  with capacity \<open>cx\<close>, the vector at address \<open>1\<close> holds \<open>ys\<close> in block \<open>2\<close> with
  capacity \<open>cy\<close>, and \<open>fs\<close> is the script of the element operations to come.
\<close>

definition block_of :: "nat list \<Rightarrow> nat \<Rightarrow> nat \<Rightarrow> nat slot option" where
  "block_of xs cap i =
     (if i < cap then Some (if i < length xs then Live (xs ! i) else Raw) else None)"

definition vector_at :: "nat \<Rightarrow> nat list \<Rightarrow> nat \<Rightarrow> Vector" where
  "vector_at b xs cap =
     \<lparr>data_m = \<lparr>buffer_m = (if cap = 0 then nullptr else (b, 0)), capacity_m = cap\<rparr>,
      size_m = length xs\<rparr>"

definition two_vectors :: "nat list \<Rightarrow> nat \<Rightarrow> nat list \<Rightarrow> nat \<Rightarrow> bool list \<Rightarrow> nat machine" where
  "two_vectors xs cx ys cy fs =
     \<lparr>heap = (\<lambda>p. if fst p = 1 then block_of xs cx (snd p)
                   else if fst p = 2 then block_of ys cy (snd p) else None),
      allocated = 2, oom = [], faults = fs, trace = [], ub = False,
      objs = (\<lambda>_. Vector_default)(0 := vector_at 1 xs cx, 1 := vector_at 2 ys cy)\<rparr>"

section \<open>Evaluation rules\<close>

named_theorems model_defs

lemmas model_unfold [model_defs] =
  size_t_add_def size_t_sub_def size_t_mul_def nullptr_def ptr_add_def ptr_sub_def ptr_diff_def
  ret_def and_then_def step_def on_exception_def at_scope_exit_def fetch_def store_def log_def
  undefined_behaviour_def write_cell_def next_fails_def may_throw_def emplace_obj_def construct_at_def
  value_construct_at_def copy_construct_at_def move_construct_at_def copy_assign_obj_def
  move_assign_obj_def destroy_at_def construct_local_def destroy_local_def
  move_assign_from_local_def operator_new_def operator_delete_def uninitialized_copy_n_def
  uninitialized_move_n_def uninitialized_value_construct_n_def valid_range_def std_copy_def
  std_move_def std_move_backward_def Allocate_def Deallocate_def RawMemory_default_def
  RawMemory_ctor_def RawMemory_move_ctor_def RawMemory_dtor_def RawMemory_plus_def
  RawMemory_index_def RawMemory_Swap_def GetAddress_def RawMemory_Capacity_def
  RawMemory_move_assign_def Vector_default_def Vector_begin_def Vector_end_def Vector_cbegin_def
  Vector_cend_def Vector_Size_def Vector_Capacity_def Vector_index_def Vector_dtor_def
  Vector_ctor_size_def Vector_copy_ctor_def Vector_move_ctor_def Vector_Swap_objects_def
  Vector_Swap_def Reserve_def EmplaceInNewAlloc_def EmplaceInCurrentAlloc_def Emplace_def
  Erase_def Insert_copy_def Insert_move_def EmplaceBack_def PushBack_copy_def PushBack_move_def
  PopBack_def Resize_def Vector_copy_assign_def Vector_move_assign_def block_cells_def holds_def
  Let_def

lemmas concrete_defs =
  T_nothrow_def T_throwing_move_def T_move_only_def block_of_def vector_at_def two_vectors_def

lemma destroy_n_numeral [simp]:
  "destroy_n first (numeral k) s = destroy_n (ptr_add first 1) (pred_numeral k) (destroy_at first s)"
  by (simp add: numeral_eq_Suc)

lemma uninitialized_copy_loop_numeral [simp]:
  "uninitialized_copy_loop first (numeral k) result cur s =
     (case copy_construct_at cur first s of
        (Inl e, s') \<Rightarrow> (Inl e, destroy_n result (ptr_diff cur result) s')
      | (Inr _, s') \<Rightarrow>
          uninitialized_copy_loop (ptr_add first 1) (pred_numeral k) result (ptr_add cur 1) s')"
  by (simp add: numeral_eq_Suc)

lemma uninitialized_move_loop_numeral [simp]:
  "uninitialized_move_loop T first (numeral k) result cur s =
     (case move_construct_at T cur first s of
        (Inl e, s') \<Rightarrow> (Inl e, destroy_n result (ptr_diff cur result) s')
      | (Inr _, s') \<Rightarrow>
          uninitialized_move_loop T (ptr_add first 1) (pred_numeral k) result (ptr_add cur 1) s')"
  by (simp add: numeral_eq_Suc)

lemma uninitialized_value_construct_loop_numeral [simp]:
  "uninitialized_value_construct_loop T first (numeral k) cur s =
     (case value_construct_at T cur s of
        (Inl e, s') \<Rightarrow> (Inl e, destroy_n first (ptr_diff cur first) s')
      | (Inr _, s') \<Rightarrow>
          uninitialized_value_construct_loop T first (pred_numeral k) (ptr_add cur 1) s')"
  by (simp add: numeral_eq_Suc)

lemma copy_loop_numeral [simp]:
  "copy_loop first (numeral k) d_first s =
     (case copy_assign_obj d_first first s of
        (Inl e, s') \<Rightarrow> (Inl e, s')
      | (Inr _, s') \<Rightarrow> copy_loop (ptr_add first 1) (pred_numeral k) (ptr_add d_first 1) s')"
  by (simp add: numeral_eq_Suc)

lemma move_loop_numeral [simp]:
  "move_loop T first (numeral k) d_first s =
     (case move_assign_obj T d_first first s of
        (Inl e, s') \<Rightarrow> (Inl e, s')
      | (Inr _, s') \<Rightarrow> move_loop T (ptr_add first 1) (pred_numeral k) (ptr_add d_first 1) s')"
  by (simp add: numeral_eq_Suc)

lemma move_backward_loop_numeral [simp]:
  "move_backward_loop T first (numeral k) d_last s =
     (case move_assign_obj T (ptr_sub d_last 1) (ptr_add first (pred_numeral k)) s of
        (Inl e, s') \<Rightarrow> (Inl e, s')
      | (Inr _, s') \<Rightarrow> move_backward_loop T first (pred_numeral k) (ptr_sub d_last 1) s')"
  by (simp add: numeral_eq_Suc)

lemma upt_0_numeral [simp]: "[0..<numeral k] = [0..<pred_numeral k] @ [pred_numeral k]"
  by (simp add: numeral_eq_Suc)

section \<open>Self-assignment and \<^verbatim>\<open>Swap\<close>\<close>

lemma Vector_fields_eq:
  "v\<lparr>data_m := (data_m v)\<lparr>buffer_m := buffer_m (data_m w), capacity_m := capacity_m (data_m w)\<rparr>,
     size_m := size_m w\<rparr> = (w :: Vector)"
  by (cases v, cases w, cases "data_m v", cases "data_m w") simp

lemma Vector_Swap_eq:
  "Vector_Swap a b s = s\<lparr>objs := (objs s)(a := objs s b, b := objs s a)\<rparr>"
  unfolding Vector_Swap_def Vector_Swap_objects_def RawMemory_Swap_def store_def Let_def
  apply (simp only: split_conv Vector_fields_eq)
  apply simp
  done

lemma holds_frame:
  "heap s' = heap s \<Longrightarrow> allocated s' = allocated s \<Longrightarrow> holds s' v xs = holds s v xs"
  by (simp add: holds_def block_cells_def)

text \<open>
  C9.  Copy-assigning a vector to itself and move-assigning a vector to itself are
  no-ops: both operators compare \<open>this\<close> with the address of their argument and, when
  the two agree, leave the whole machine state (hence the size, the capacity and every
  element of the vector) as it was; the copy assignment returns normally.
\<close>

theorem self_assignment_is_noop:
  "Vector_copy_assign T v v s = (Inr (), s) \<and> Vector_move_assign v v s = s"
  by (simp add: Vector_copy_assign_def Vector_move_assign_def ret_def)

theorem self_assignment_is_noop_witness:
  "Vector_copy_assign T_throwing_move 0 0 (two_vectors [5, 6] 2 [9] 1 []) =
     (Inr (), two_vectors [5, 6] 2 [9] 1 [])
   \<and> Vector_move_assign 0 0 (two_vectors [5, 6] 2 [9] 1 []) = two_vectors [5, 6] 2 [9] 1 []
   \<and> holds (two_vectors [5, 6] 2 [9] 1 []) (objs (two_vectors [5, 6] 2 [9] 1 []) 0) [5, 6]"
  using self_assignment_is_noop [of T_throwing_move 0 "two_vectors [5, 6] 2 [9] 1 []"]
  by (simp add: model_defs concrete_defs)

text \<open>
  C10.  \<^verbatim>\<open>a.Swap(b)\<close> changes nothing but the two vector objects, which it exchanges
  whole (storage, capacity and size): no storage cell is touched, nothing is logged (no
  element is constructed, copied, moved or destroyed, nothing is allocated or freed), no
  exception can leave it (it is a state transformer) and the undefined-behaviour flag
  is not raised.  Hence, when \<open>a\<close> held \<open>xs\<close> and \<open>b\<close> held \<open>ys\<close>, afterwards \<open>a\<close>
  holds \<open>ys\<close> and \<open>b\<close> holds \<open>xs\<close>, in order; and swapping twice restores the state.
\<close>

theorem Swap_exchanges:
  assumes "holds s (objs s a) xs" and "holds s (objs s b) ys"
  shows "Vector_Swap a b s = s\<lparr>objs := (objs s)(a := objs s b, b := objs s a)\<rparr>
       \<and> holds (Vector_Swap a b s) (objs (Vector_Swap a b s) a) ys
       \<and> holds (Vector_Swap a b s) (objs (Vector_Swap a b s) b) xs
       \<and> Vector_Swap a b (Vector_Swap a b s) = s"
proof -
  let ?f = "(objs s)(a := objs s b, b := objs s a)"
  let ?s = "s\<lparr>objs := ?f\<rparr>"
  have eq: "Vector_Swap a b s = ?s"
    by (rule Vector_Swap_eq)
  have "?f(a := ?f b, b := ?f a) = objs s"
    by (rule ext) simp
  then have twice: "Vector_Swap a b (Vector_Swap a b s) = s"
    by (simp add: Vector_Swap_eq)
  have fr: "\<And>v zs. holds ?s v zs = holds s v zs"
    by (rule holds_frame) simp_all
  have "holds ?s (objs ?s a) ys"
    using assms by (cases "a = b") (simp_all add: fr)
  moreover have "holds ?s (objs ?s b) xs"
    using assms by (simp add: fr)
  ultimately show ?thesis
    using twice by (simp only: eq)
qed

theorem Swap_exchanges_witness:
  "holds (two_vectors [5, 6] 2 [9] 1 []) (objs (two_vectors [5, 6] 2 [9] 1 []) 0) [5, 6]
   \<and> holds (two_vectors [5, 6] 2 [9] 1 []) (objs (two_vectors [5, 6] 2 [9] 1 []) 1) [9]
   \<and> holds (Vector_Swap 0 1 (two_vectors [5, 6] 2 [9] 1 []))
        (objs (Vector_Swap 0 1 (two_vectors [5, 6] 2 [9] 1 [])) 0) [9]
   \<and> holds (Vector_Swap 0 1 (two_vectors [5, 6] 2 [9] 1 []))
        (objs (Vector_Swap 0 1 (two_vectors [5, 6] 2 [9] 1 [])) 1) [5, 6]
   \<and> Vector_Swap 0 1 (Vector_Swap 0 1 (two_vectors [5, 6] 2 [9] 1 [])) = two_vectors [5, 6] 2 [9] 1 []"
proof -
  have a: "holds (two_vectors [5, 6] 2 [9] 1 []) (objs (two_vectors [5, 6] 2 [9] 1 []) 0) [5, 6]"
    by (simp add: model_defs concrete_defs)
  have b: "holds (two_vectors [5, 6] 2 [9] 1 []) (objs (two_vectors [5, 6] 2 [9] 1 []) 1) [9]"
    by (simp add: model_defs concrete_defs)
  from Swap_exchanges [OF a b] a b show ?thesis
    by blast
qed

section \<open>Move assignment releases storage with live elements\<close>

text \<open>
  C2.  The code at the input of the claim's failure: the target holds \<open>[7]\<close> in block
  \<open>1\<close>, the source holds \<open>[9]\<close> in block \<open>2\<close>.  The move assignment frees block \<open>1\<close>
  and logs nothing else: the live element of the target is never destroyed, its storage
  is gone.  Afterwards the target holds \<open>[9]\<close> and the source is empty.
\<close>

theorem move_assign_frees_live_elements:
  "holds (two_vectors [7] 1 [9] 1 []) (objs (two_vectors [7] 1 [9] 1 []) 0) [7]
   \<and> trace (two_vectors [7] 1 [9] 1 []) = []
   \<and> trace (Vector_move_assign 0 1 (two_vectors [7] 1 [9] 1 [])) = [Freed 1]
   \<and> heap (Vector_move_assign 0 1 (two_vectors [7] 1 [9] 1 [])) (1, 0) = None
   \<and> holds (Vector_move_assign 0 1 (two_vectors [7] 1 [9] 1 []))
        (objs (Vector_move_assign 0 1 (two_vectors [7] 1 [9] 1 [])) 0) [9]
   \<and> holds (Vector_move_assign 0 1 (two_vectors [7] 1 [9] 1 []))
        (objs (Vector_move_assign 0 1 (two_vectors [7] 1 [9] 1 [])) 1) []"
  by (simp add: model_defs concrete_defs)

section \<open>\<^verbatim>\<open>Resize\<close>: the handler destroys what is already destroyed\<close>

text \<open>
  C3.  The code at the input of the claim's failure: \<^verbatim>\<open>T\<close> is copyable with a move
  constructor that may throw, the vector holds \<open>[5]\<close> with capacity \<open>1\<close>, and of the
  element operations of \<^verbatim>\<open>Resize(3)\<close> the third throws (the copy in \<^verbatim>\<open>Reserve\<close> and the
  first value construction succeed, the second value construction fails).
  \<^verbatim>\<open>uninitialized_value_construct_n\<close> destroys the one element it built, cell \<open>(3, 1)\<close>,
  and rethrows; the handler of \<^verbatim>\<open>Resize\<close> then destroys the cells \<open>(3, 1)\<close> and \<open>(3, 2)\<close>
  again, neither of which holds an object: cell \<open>(3, 1)\<close> is destroyed twice, cell
  \<open>(3, 2)\<close> was never constructed.  The exception is propagated and the size is still \<open>1\<close>.
\<close>

theorem Resize_handler_destroys_dead_cells:
  "fst (Resize T_throwing_move 0 3 (two_vectors [5] 1 [] 0 [False, False, True])) = Inl element_failure
   \<and> trace (snd (Resize T_throwing_move 0 3 (two_vectors [5] 1 [] 0 [False, False, True]))) =
       [Allocated 3 3, CopyConstructed (Cell (3, 0)) (Cell (1, 0)), Destroyed (Cell (1, 0)), Freed 1,
        ValueConstructed (Cell (3, 1)), Destroyed (Cell (3, 1)),
        Destroyed (Cell (3, 1)), Destroyed (Cell (3, 2))]
   \<and> ub (snd (Resize T_throwing_move 0 3 (two_vectors [5] 1 [] 0 [False, False, True])))
   \<and> size_m (objs (snd (Resize T_throwing_move 0 3 (two_vectors [5] 1 [] 0 [False, False, True]))) 0) = 1"
  by (simp add: model_defs concrete_defs)

section \<open>Effects of the element operations and of the library loops\<close>

lemma ptr_add_pair [simp]: "ptr_add (b, k) n = (b, k + n)"
  by (simp add: ptr_add_def)

lemma wrap_sub: "b \<le> a \<Longrightarrow> a < N \<Longrightarrow> (N + a - b) mod N = a - (b::nat)"
proof -
  assume le: "b \<le> a" and lt: "a < N"
  from le have e: "N + a - b = N + (a - b)"
    by arith
  from lt have l: "a - b < N"
    by (rule less_imp_diff_less)
  have "(N + a - b) mod N = (N + (a - b)) mod N"
    by (simp only: e)
  also have "\<dots> = (a - b) mod N"
    by (rule mod_add_self1)
  also from l have "\<dots> = a - b"
    by (rule mod_less)
  finally show ?thesis .
qed

lemma size_t_sub_le: "b \<le> a \<Longrightarrow> a < 2 ^ 64 \<Longrightarrow> size_t_sub a b = a - b"
  unfolding size_t_sub_def by (rule wrap_sub)

lemma size_t_add_small: "a + b < 2 ^ 64 \<Longrightarrow> size_t_add a b = a + b"
  by (simp add: size_t_add_def)

lemma size_t_mul_small: "a * b < 2 ^ 64 \<Longrightarrow> size_t_mul a b = a * b"
  by (simp add: size_t_mul_def)

lemma construct_at_eq:
  "heap s p = Some Raw \<Longrightarrow>
   construct_at p x s =
     (if next_fails (faults s) then (Inl element_failure, s\<lparr>faults := tl (faults s)\<rparr>)
      else (Inr (), s\<lparr>faults := tl (faults s), heap := (heap s)(p \<mapsto> Live x),
                      trace := trace s @ [Constructed (Cell p)]\<rparr>))"
  by (simp add: construct_at_def and_then_def may_throw_def step_def emplace_obj_def write_cell_def log_def)

lemma value_construct_at_eq:
  "heap s p = Some Raw \<Longrightarrow>
   value_construct_at T p s =
     (if next_fails (faults s) then (Inl element_failure, s\<lparr>faults := tl (faults s)\<rparr>)
      else (Inr (), s\<lparr>faults := tl (faults s), heap := (heap s)(p \<mapsto> Live (value_init T)),
                      trace := trace s @ [ValueConstructed (Cell p)]\<rparr>))"
  by (simp add: value_construct_at_def and_then_def may_throw_def step_def emplace_obj_def write_cell_def log_def)

lemma copy_construct_at_eq:
  "heap s src = Some (Live x) \<Longrightarrow> heap s dst = Some Raw \<Longrightarrow>
   copy_construct_at dst src s =
     (if next_fails (faults s) then (Inl element_failure, s\<lparr>faults := tl (faults s)\<rparr>)
      else (Inr (), s\<lparr>faults := tl (faults s), heap := (heap s)(dst \<mapsto> Live x),
                      trace := trace s @ [CopyConstructed (Cell dst) (Cell src)]\<rparr>))"
  by (simp add: copy_construct_at_def and_then_def may_throw_def step_def emplace_obj_def write_cell_def log_def)

lemma move_construct_at_eq:
  "heap s src = Some (Live x) \<Longrightarrow> heap s dst = Some Raw \<Longrightarrow>
   move_construct_at T dst src s =
     (if \<not> is_nothrow_move_constructible T \<and> next_fails (faults s)
      then (Inl element_failure, s\<lparr>faults := tl (faults s)\<rparr>)
      else (Inr (), s\<lparr>faults := (if is_nothrow_move_constructible T then faults s else tl (faults s)),
                      heap := (heap s)(dst \<mapsto> Live x, src \<mapsto> Live (moved_from T x)),
                      trace := trace s @ [MoveConstructed (Cell dst) (Cell src)]\<rparr>))"
  by (simp add: move_construct_at_def and_then_def may_throw_def step_def emplace_obj_def write_cell_def log_def ret_def)

lemma move_assign_obj_eq:
  "heap s src = Some (Live x) \<Longrightarrow> heap s dst = Some (Live y) \<Longrightarrow>
   move_assign_obj T dst src s =
     (if \<not> is_nothrow_move_assignable T \<and> next_fails (faults s)
      then (Inl element_failure, s\<lparr>faults := tl (faults s)\<rparr>)
      else (Inr (), s\<lparr>faults := (if is_nothrow_move_assignable T then faults s else tl (faults s)),
                      heap := (heap s)(dst \<mapsto> Live x, src \<mapsto> Live (moved_from T x)),
                      trace := trace s @ [MoveAssigned (Cell dst) (Cell src)]\<rparr>))"
  by (simp add: move_assign_obj_def and_then_def may_throw_def step_def write_cell_def log_def ret_def)

lemma move_assign_from_local_eq:
  "heap s dst = Some (Live y) \<Longrightarrow>
   move_assign_from_local T dst x s =
     (if \<not> is_nothrow_move_assignable T \<and> next_fails (faults s)
      then (Inl element_failure, s\<lparr>faults := tl (faults s)\<rparr>)
      else (Inr (), s\<lparr>faults := (if is_nothrow_move_assignable T then faults s else tl (faults s)),
                      heap := (heap s)(dst \<mapsto> Live x),
                      trace := trace s @ [MoveAssigned (Cell dst) Local]\<rparr>))"
  by (simp add: move_assign_from_local_def and_then_def may_throw_def step_def write_cell_def log_def ret_def)

lemma destroy_at_eq:
  "heap s p = Some (Live x) \<Longrightarrow>
   destroy_at p s = s\<lparr>heap := (heap s)(p \<mapsto> Raw), trace := trace s @ [Destroyed (Cell p)]\<rparr>"
  by (simp add: destroy_at_def write_cell_def log_def)

lemma destroy_n_effect:
  "(\<forall>i<n. \<exists>x. heap s (b, k + i) = Some (Live x)) \<Longrightarrow>
   frame s (destroy_n (b, k) n s) \<and>
   faults (destroy_n (b, k) n s) = faults s \<and>
   heap (destroy_n (b, k) n s) =
     (\<lambda>p. if fst p = b \<and> k \<le> snd p \<and> snd p < k + n then Some Raw else heap s p) \<and>
   trace (destroy_n (b, k) n s) = trace s @ map (\<lambda>i. Destroyed (Cell (b, k + i))) [0..<n]"
proof (induction n arbitrary: k s)
  case 0
  then show ?case by (auto simp: frame_def fun_eq_iff)
next
  case (Suc n)
  from Suc.prems obtain x where x: "heap s (b, k) = Some (Live x)"
    by force
  let ?s1 = "destroy_at (b, k) s"
  have s1: "?s1 = s\<lparr>heap := (heap s)((b, k) \<mapsto> Raw), trace := trace s @ [Destroyed (Cell (b, k))]\<rparr>"
    by (rule destroy_at_eq [OF x])
  have pre: "\<forall>i<n. \<exists>x. heap ?s1 (b, Suc k + i) = Some (Live x)"
  proof (intro allI impI)
    fix i assume "i < n"
    then have "Suc i < Suc n" by simp
    with Suc.prems obtain y where "heap s (b, k + Suc i) = Some (Live y)" by blast
    then show "\<exists>x. heap ?s1 (b, Suc k + i) = Some (Live x)" by (simp add: s1)
  qed
  have t: "map (\<lambda>i. Destroyed (Cell (b, k + i))) [0..<Suc n] =
           Destroyed (Cell (b, k)) # map (\<lambda>i. Destroyed (Cell (b, Suc k + i))) [0..<n]"
    by (simp add: map_upt_Suc del: upt_Suc)
  from Suc.IH [OF pre] have
    f: "frame ?s1 (destroy_n (b, Suc k) n ?s1)" and
    fl: "faults (destroy_n (b, Suc k) n ?s1) = faults ?s1" and
    h: "heap (destroy_n (b, Suc k) n ?s1) =
         (\<lambda>p. if fst p = b \<and> Suc k \<le> snd p \<and> snd p < Suc k + n then Some Raw else heap ?s1 p)" and
    tr: "trace (destroy_n (b, Suc k) n ?s1) = trace ?s1 @ map (\<lambda>i. Destroyed (Cell (b, Suc k + i))) [0..<n]"
    by blast+
  have "heap (destroy_n (b, Suc k) n ?s1) =
     (\<lambda>p. if fst p = b \<and> k \<le> snd p \<and> snd p < k + Suc n then Some Raw else heap s p)"
    unfolding h by (auto simp: fun_eq_iff s1)
  moreover have "trace (destroy_n (b, Suc k) n ?s1) =
      trace s @ map (\<lambda>i. Destroyed (Cell (b, k + i))) [0..<Suc n]"
    unfolding tr t by (simp add: s1)
  moreover have "frame s (destroy_n (b, Suc k) n ?s1)"
    using f by (simp add: frame_def s1)
  moreover have "faults (destroy_n (b, Suc k) n ?s1) = faults s"
    using fl by (simp add: s1)
  ultimately show ?case
    by simp
qed

lemma ptr_diff_same_block: "k + c < 2 ^ 64 \<Longrightarrow> ptr_diff (b, c + k) (b, c) = k"
  by (simp add: ptr_diff_def size_t_sub_le)

lemma uninitialized_copy_loop_effect:
  assumes "uninitialized_copy_loop (bs, os) n (bd, od) (bd, od + k) s = (r, s')"
      and "bs \<noteq> bd"
      and "\<forall>i<n. \<exists>x. heap s (bs, os + i) = Some (Live x)"
      and "\<forall>i<n. heap s (bd, od + k + i) = Some Raw"
      and "\<forall>j<k. \<exists>x. heap s (bd, od + j) = Some (Live x)"
      and "od + k + n < 2 ^ 64"
  shows "frame s s' \<and>
         (case r of
            Inr u \<Rightarrow>
              heap s' = (\<lambda>p. if fst p = bd \<and> od + k \<le> snd p \<and> snd p < od + k + n
                              then heap s (bs, os + (snd p - (od + k))) else heap s p) \<and>
              trace s' = trace s @
                map (\<lambda>i. CopyConstructed (Cell (bd, od + k + i)) (Cell (bs, os + i))) [0..<n]
          | Inl e \<Rightarrow>
              e = element_failure \<and>
              heap s' = (\<lambda>p. if fst p = bd \<and> od \<le> snd p \<and> snd p < od + k
                              then Some Raw else heap s p))"
  using assms
proof (induction n arbitrary: os k s)
  case 0
  then show ?case by (auto simp: frame_def fun_eq_iff)
next
  case (Suc n)
  from Suc.prems(3) obtain x where x: "heap s (bs, os) = Some (Live x)"
    by force
  from Suc.prems(4) have raw: "heap s (bd, od + k) = Some Raw"
    by force
  note prim = copy_construct_at_eq [OF x raw]
  show ?case
  proof (cases "next_fails (faults s)")
    case True
    let ?s1 = "s\<lparr>faults := tl (faults s)\<rparr>"
    have pd: "ptr_diff (bd, od + k) (bd, od) = k"
      using Suc.prems(6) by (intro ptr_diff_same_block) simp
    from Suc.prems(1) True have r: "r = Inl element_failure" and s': "s' = destroy_n (bd, od) k ?s1"
      by (simp_all add: prim pd)
    have "\<forall>j<k. \<exists>x. heap ?s1 (bd, od + j) = Some (Live x)"
      using Suc.prems(5) by simp
    from destroy_n_effect [OF this] show ?thesis
      unfolding r s' by (simp add: frame_def cong: if_cong)
  next
    case False
    let ?s1 = "s\<lparr>faults := tl (faults s), heap := (heap s)((bd, od + k) \<mapsto> Live x),
                  trace := trace s @ [CopyConstructed (Cell (bd, od + k)) (Cell (bs, os))]\<rparr>"
    from Suc.prems(1) False have run: "uninitialized_copy_loop (bs, Suc os) n (bd, od) (bd, od + Suc k) ?s1 = (r, s')"
      by (simp add: prim)
    have p3: "\<forall>i<n. \<exists>x. heap ?s1 (bs, Suc os + i) = Some (Live x)"
    proof (intro allI impI)
      fix i assume "i < n"
      then have "Suc i < Suc n" by simp
      with Suc.prems(3) obtain y where "heap s (bs, os + Suc i) = Some (Live y)" by blast
      then show "\<exists>x. heap ?s1 (bs, Suc os + i) = Some (Live x)"
        using Suc.prems(2) by simp
    qed
    have p4: "\<forall>i<n. heap ?s1 (bd, od + Suc k + i) = Some Raw"
    proof (intro allI impI)
      fix i assume "i < n"
      then have "Suc i < Suc n" by simp
      with Suc.prems(4) have "heap s (bd, od + k + Suc i) = Some Raw" by blast
      then show "heap ?s1 (bd, od + Suc k + i) = Some Raw"
        by simp
    qed
    have p5: "\<forall>j<Suc k. \<exists>x. heap ?s1 (bd, od + j) = Some (Live x)"
      using Suc.prems(5) by (auto simp: less_Suc_eq)
    have p6: "od + Suc k + n < 2 ^ 64"
      using Suc.prems(6) by simp
    note IH = Suc.IH [OF run Suc.prems(2) p3 p4 p5 p6]
    have fr: "frame s s'"
      using IH by (simp add: frame_def)
    show ?thesis
    proof (cases r)
      case (Inl e)
      with IH have e: "e = element_failure"
        and h: "heap s' = (\<lambda>p. if fst p = bd \<and> od \<le> snd p \<and> snd p < od + Suc k
                              then Some Raw else heap ?s1 p)"
        by simp_all
      have "heap s' = (\<lambda>p. if fst p = bd \<and> od \<le> snd p \<and> snd p < od + k
                              then Some Raw else heap s p)"
        unfolding h using raw by (auto simp: fun_eq_iff less_Suc_eq)
      with Inl e fr show ?thesis by simp
    next
      case (Inr u)
      with IH have
        h: "heap s' = (\<lambda>p. if fst p = bd \<and> od + Suc k \<le> snd p \<and> snd p < od + Suc k + n
                              then heap ?s1 (bs, Suc os + (snd p - (od + Suc k))) else heap ?s1 p)"
        and t: "trace s' = trace ?s1 @
                map (\<lambda>i. CopyConstructed (Cell (bd, od + Suc k + i)) (Cell (bs, Suc os + i))) [0..<n]"
        by simp_all
      have "heap s' = (\<lambda>p. if fst p = bd \<and> od + k \<le> snd p \<and> snd p < od + k + Suc n
                              then heap s (bs, os + (snd p - (od + k))) else heap s p)"
        unfolding h using x Suc.prems(2)
        by (auto simp: fun_eq_iff intro!: arg_cong [where f = "heap s"])
      moreover have "trace s' = trace s @
                map (\<lambda>i. CopyConstructed (Cell (bd, od + k + i)) (Cell (bs, os + i))) [0..<Suc n]"
        unfolding t by (simp add: map_upt_Suc del: upt_Suc)
      ultimately show ?thesis
        using Inr fr by simp
    qed
  qed
qed

lemma uninitialized_move_loop_effect:
  assumes "uninitialized_move_loop T (bs, os) n (bd, od) (bd, od + k) s = (r, s')"
      and "bs \<noteq> bd"
      and "\<forall>i<n. \<exists>x. heap s (bs, os + i) = Some (Live x)"
      and "\<forall>i<n. heap s (bd, od + k + i) = Some Raw"
      and "\<forall>j<k. \<exists>x. heap s (bd, od + j) = Some (Live x)"
      and "od + k + n < 2 ^ 64"
  shows "frame s s' \<and>
         (case r of
            Inr u \<Rightarrow>
              heap s' = (\<lambda>p. if fst p = bd \<and> od + k \<le> snd p \<and> snd p < od + k + n
                              then heap s (bs, os + (snd p - (od + k)))
                              else if fst p = bs \<and> os \<le> snd p \<and> snd p < os + n
                              then (case heap s p of
                                      Some (Live y) \<Rightarrow> Some (Live (moved_from T y))
                                    | c \<Rightarrow> c)
                              else heap s p) \<and>
              trace s' = trace s @
                map (\<lambda>i. MoveConstructed (Cell (bd, od + k + i)) (Cell (bs, os + i))) [0..<n]
          | Inl e \<Rightarrow> e = element_failure \<and> \<not> is_nothrow_move_constructible T)"
  using assms
proof (induction n arbitrary: os k s)
  case 0
  then show ?case by (auto simp: frame_def fun_eq_iff)
next
  case (Suc n)
  from Suc.prems(3) obtain x where x: "heap s (bs, os) = Some (Live x)"
    by force
  from Suc.prems(4) have raw: "heap s (bd, od + k) = Some Raw"
    by force
  note prim = move_construct_at_eq [OF x raw]
  show ?case
  proof (cases "\<not> is_nothrow_move_constructible T \<and> next_fails (faults s)")
    case True
    let ?s1 = "s\<lparr>faults := tl (faults s)\<rparr>"
    have pd: "ptr_diff (bd, od + k) (bd, od) = k"
      using Suc.prems(6) by (intro ptr_diff_same_block) simp
    from Suc.prems(1) True have r: "r = Inl element_failure" and s': "s' = destroy_n (bd, od) k ?s1"
      by (simp_all add: prim pd)
    have "\<forall>j<k. \<exists>x. heap ?s1 (bd, od + j) = Some (Live x)"
      using Suc.prems(5) by simp
    from destroy_n_effect [OF this] True show ?thesis
      unfolding r s' by (simp add: frame_def cong: if_cong)
  next
    case False
    let ?s1 = "s\<lparr>faults := (if is_nothrow_move_constructible T then faults s else tl (faults s)),
                  heap := (heap s)((bd, od + k) \<mapsto> Live x, (bs, os) \<mapsto> Live (moved_from T x)),
                  trace := trace s @ [MoveConstructed (Cell (bd, od + k)) (Cell (bs, os))]\<rparr>"
    from Suc.prems(1) False
    have run: "uninitialized_move_loop T (bs, Suc os) n (bd, od) (bd, od + Suc k) ?s1 = (r, s')"
      by (simp add: prim)
    have p3: "\<forall>i<n. \<exists>x. heap ?s1 (bs, Suc os + i) = Some (Live x)"
    proof (intro allI impI)
      fix i assume "i < n"
      then have "Suc i < Suc n" by simp
      with Suc.prems(3) obtain y where "heap s (bs, os + Suc i) = Some (Live y)" by blast
      then show "\<exists>x. heap ?s1 (bs, Suc os + i) = Some (Live x)"
        using Suc.prems(2) by simp
    qed
    have p4: "\<forall>i<n. heap ?s1 (bd, od + Suc k + i) = Some Raw"
    proof (intro allI impI)
      fix i assume "i < n"
      then have "Suc i < Suc n" by simp
      with Suc.prems(4) have "heap s (bd, od + k + Suc i) = Some Raw" by blast
      then show "heap ?s1 (bd, od + Suc k + i) = Some Raw"
        using Suc.prems(2) by simp
    qed
    have p5: "\<forall>j<Suc k. \<exists>x. heap ?s1 (bd, od + j) = Some (Live x)"
      using Suc.prems(5) Suc.prems(2) by (auto simp: less_Suc_eq)
    have p6: "od + Suc k + n < 2 ^ 64"
      using Suc.prems(6) by simp
    note IH = Suc.IH [OF run Suc.prems(2) p3 p4 p5 p6]
    have fr: "frame s s'"
      using IH by (simp add: frame_def)
    show ?thesis
    proof (cases r)
      case (Inl e)
      with IH fr show ?thesis by simp
    next
      case (Inr u)
      with IH have
        h: "heap s' = (\<lambda>p. if fst p = bd \<and> od + Suc k \<le> snd p \<and> snd p < od + Suc k + n
                              then heap ?s1 (bs, Suc os + (snd p - (od + Suc k)))
                              else if fst p = bs \<and> Suc os \<le> snd p \<and> snd p < Suc os + n
                              then (case heap ?s1 p of
                                      Some (Live y) \<Rightarrow> Some (Live (moved_from T y))
                                    | c \<Rightarrow> c)
                              else heap ?s1 p)"
        and t: "trace s' = trace ?s1 @
                map (\<lambda>i. MoveConstructed (Cell (bd, od + Suc k + i)) (Cell (bs, Suc os + i))) [0..<n]"
        by simp_all
      have "heap s' = (\<lambda>p. if fst p = bd \<and> od + k \<le> snd p \<and> snd p < od + k + Suc n
                              then heap s (bs, os + (snd p - (od + k)))
                              else if fst p = bs \<and> os \<le> snd p \<and> snd p < os + Suc n
                              then (case heap s p of
                                      Some (Live y) \<Rightarrow> Some (Live (moved_from T y))
                                    | c \<Rightarrow> c)
                              else heap s p)"
      proof (rule ext)
        fix p :: ptr
        obtain b j where p: "p = (b, j)" by (cases p)
        show "heap s' p = (if fst p = bd \<and> od + k \<le> snd p \<and> snd p < od + k + Suc n
                              then heap s (bs, os + (snd p - (od + k)))
                              else if fst p = bs \<and> os \<le> snd p \<and> snd p < os + Suc n
                              then (case heap s p of
                                      Some (Live y) \<Rightarrow> Some (Live (moved_from T y))
                                    | c \<Rightarrow> c)
                              else heap s p)"
          unfolding h p using x Suc.prems(2)
          by (auto intro!: arg_cong [where f = "heap s"])
      qed
      moreover have "trace s' = trace s @
                map (\<lambda>i. MoveConstructed (Cell (bd, od + k + i)) (Cell (bs, os + i))) [0..<Suc n]"
        unfolding t by (simp add: map_upt_Suc del: upt_Suc)
      ultimately show ?thesis
        using Inr fr by simp
    qed
  qed
qed

lemma relocation_effect:
  assumes run: "(if is_nothrow_move_constructible T \<or> \<not> is_copy_constructible T
                 then uninitialized_move_n T (bs, os) n (bd, od)
                 else uninitialized_copy_n (bs, os) n (bd, od)) s = (r, s')"
      and ne: "bs \<noteq> bd"
      and src: "\<forall>i<n. \<exists>x. heap s (bs, os + i) = Some (Live x)"
      and dst: "\<forall>i<n. heap s (bd, od + i) = Some Raw"
      and bound: "od + n < 2 ^ 64"
  shows "frame s s' \<and>
         (case r of
            Inr u \<Rightarrow>
              (\<forall>i<n. heap s' (bd, od + i) = heap s (bs, os + i)) \<and>
              (\<forall>i<n. \<exists>y. heap s' (bs, os + i) = Some (Live y)) \<and>
              (\<forall>p. \<not> (fst p = bd \<and> od \<le> snd p \<and> snd p < od + n) \<longrightarrow>
                   \<not> (fst p = bs \<and> os \<le> snd p \<and> snd p < os + n) \<longrightarrow> heap s' p = heap s p) \<and>
              trace s' = trace s @
                map (\<lambda>i. (if is_nothrow_move_constructible T \<or> \<not> is_copy_constructible T
                           then MoveConstructed else CopyConstructed)
                            (Cell (bd, od + i)) (Cell (bs, os + i))) [0..<n]
          | Inl e \<Rightarrow>
              e = element_failure \<and> \<not> is_nothrow_move_constructible T \<and>
              (is_copy_constructible T \<longrightarrow> heap s' = heap s))"
proof (cases "is_nothrow_move_constructible T \<or> \<not> is_copy_constructible T")
  case True
  with run have "uninitialized_move_loop T (bs, os) n (bd, od) (bd, od + 0) s = (r, s')"
    by (simp add: uninitialized_move_n_def)
  from uninitialized_move_loop_effect [OF this ne src] dst bound
  have fr: "frame s s'" and
    c: "case r of
            Inr u \<Rightarrow>
              heap s' = (\<lambda>p. if fst p = bd \<and> od + 0 \<le> snd p \<and> snd p < od + 0 + n
                              then heap s (bs, os + (snd p - (od + 0)))
                              else if fst p = bs \<and> os \<le> snd p \<and> snd p < os + n
                              then (case heap s p of
                                      Some (Live y) \<Rightarrow> Some (Live (moved_from T y))
                                    | c \<Rightarrow> c)
                              else heap s p) \<and>
              trace s' = trace s @
                map (\<lambda>i. MoveConstructed (Cell (bd, od + 0 + i)) (Cell (bs, os + i))) [0..<n]
          | Inl e \<Rightarrow> e = element_failure \<and> \<not> is_nothrow_move_constructible T"
    by simp_all
  show ?thesis
  proof (cases r)
    case (Inl e)
    with c fr True show ?thesis by auto
  next
    case (Inr u)
    with c have h: "heap s' = (\<lambda>p. if fst p = bd \<and> od \<le> snd p \<and> snd p < od + n
                              then heap s (bs, os + (snd p - od))
                              else if fst p = bs \<and> os \<le> snd p \<and> snd p < os + n
                              then (case heap s p of
                                      Some (Live y) \<Rightarrow> Some (Live (moved_from T y))
                                    | c \<Rightarrow> c)
                              else heap s p)"
      and t: "trace s' = trace s @
                map (\<lambda>i. MoveConstructed (Cell (bd, od + i)) (Cell (bs, os + i))) [0..<n]"
      by (simp_all cong: if_cong)
    have d: "\<forall>i<n. heap s' (bd, od + i) = heap s (bs, os + i)"
      unfolding h by simp
    have sl: "\<forall>i<n. \<exists>y. heap s' (bs, os + i) = Some (Live y)"
    proof (intro allI impI)
      fix i assume "i < n"
      with src obtain x where "heap s (bs, os + i) = Some (Live x)" by blast
      with \<open>i < n\<close> ne show "\<exists>y. heap s' (bs, os + i) = Some (Live y)"
        unfolding h by simp
    qed
    have o: "\<forall>p. \<not> (fst p = bd \<and> od \<le> snd p \<and> snd p < od + n) \<longrightarrow>
                   \<not> (fst p = bs \<and> os \<le> snd p \<and> snd p < os + n) \<longrightarrow> heap s' p = heap s p"
      unfolding h by simp
    from d sl o t fr True Inr show ?thesis
      by simp
  qed
next
  case False
  with run have "uninitialized_copy_loop (bs, os) n (bd, od) (bd, od + 0) s = (r, s')"
    by (simp add: uninitialized_copy_n_def)
  from uninitialized_copy_loop_effect [OF this ne src] dst bound
  have fr: "frame s s'" and
    c: "case r of
            Inr u \<Rightarrow>
              heap s' = (\<lambda>p. if fst p = bd \<and> od + 0 \<le> snd p \<and> snd p < od + 0 + n
                              then heap s (bs, os + (snd p - (od + 0))) else heap s p) \<and>
              trace s' = trace s @
                map (\<lambda>i. CopyConstructed (Cell (bd, od + 0 + i)) (Cell (bs, os + i))) [0..<n]
          | Inl e \<Rightarrow>
              e = element_failure \<and>
              heap s' = (\<lambda>p. if fst p = bd \<and> od \<le> snd p \<and> snd p < od + 0
                              then Some Raw else heap s p)"
    by simp_all
  show ?thesis
  proof (cases r)
    case (Inl e)
    with c have "e = element_failure" and "heap s' = heap s"
      by (auto simp: fun_eq_iff)
    with fr False Inl show ?thesis by simp
  next
    case (Inr u)
    with c have h: "heap s' = (\<lambda>p. if fst p = bd \<and> od \<le> snd p \<and> snd p < od + n
                              then heap s (bs, os + (snd p - od)) else heap s p)"
      and t: "trace s' = trace s @
                map (\<lambda>i. CopyConstructed (Cell (bd, od + i)) (Cell (bs, os + i))) [0..<n]"
      by (simp_all cong: if_cong)
    have d: "\<forall>i<n. heap s' (bd, od + i) = heap s (bs, os + i)"
      unfolding h by simp
    have sl: "\<forall>i<n. \<exists>y. heap s' (bs, os + i) = Some (Live y)"
      using src ne unfolding h by simp
    have o: "\<forall>p. \<not> (fst p = bd \<and> od \<le> snd p \<and> snd p < od + n) \<longrightarrow>
                   \<not> (fst p = bs \<and> os \<le> snd p \<and> snd p < os + n) \<longrightarrow> heap s' p = heap s p"
      unfolding h by simp
    from d sl o t fr False Inr show ?thesis
      by simp
  qed
qed

lemma holds_cells:
  assumes "holds s v xs" and "i < capacity_m (data_m v)"
  shows "heap s (fst (buffer_m (data_m v)), i) = Some (if i < length xs then Live (xs ! i) else Raw)"
proof -
  let ?b = "fst (buffer_m (data_m v))" and ?c = "capacity_m (data_m v)"
  from assms(1) have eq: "block_cells s ?b ?c =
      map (\<lambda>x. Some (Live x)) xs @ replicate (?c - length xs) (Some Raw)"
    and le: "length xs \<le> ?c"
    by (simp_all add: holds_def)
  have "block_cells s ?b ?c ! i = heap s (?b, i)"
    using assms(2) by (simp add: block_cells_def)
  moreover have "(map (\<lambda>x. Some (Live x)) xs @ replicate (?c - length xs) (Some Raw)) ! i =
      Some (if i < length xs then Live (xs ! i) else Raw)"
    using assms(2) le by (simp add: nth_append)
  ultimately show ?thesis
    using eq by simp
qed

lemma holdsI:
  assumes "size_m v = length xs" and "length xs \<le> capacity_m (data_m v)"
      and "capacity_m (data_m v) < 2 ^ 63"
      and "if capacity_m (data_m v) = 0 then buffer_m (data_m v) = nullptr
           else snd (buffer_m (data_m v)) = 0 \<and> 0 < fst (buffer_m (data_m v)) \<and>
                fst (buffer_m (data_m v)) \<le> allocated s"
      and "\<forall>i<capacity_m (data_m v).
             heap s (fst (buffer_m (data_m v)), i) = Some (if i < length xs then Live (xs ! i) else Raw)"
  shows "holds s v xs"
proof -
  let ?b = "fst (buffer_m (data_m v))" and ?c = "capacity_m (data_m v)"
  have "block_cells s ?b ?c = map (\<lambda>x. Some (Live x)) xs @ replicate (?c - length xs) (Some Raw)"
  proof (rule nth_equalityI)
    show "length (block_cells s ?b ?c) =
          length (map (\<lambda>x. Some (Live x)) xs @ replicate (?c - length xs) (Some Raw))"
      using assms(2) by (simp add: block_cells_def)
  next
    fix i assume "i < length (block_cells s ?b ?c)"
    then have i: "i < ?c" by (simp add: block_cells_def)
    with assms(5) have "heap s (?b, i) = Some (if i < length xs then Live (xs ! i) else Raw)"
      by blast
    with i assms(2) show "block_cells s ?b ?c ! i =
          (map (\<lambda>x. Some (Live x)) xs @ replicate (?c - length xs) (Some Raw)) ! i"
      by (simp add: block_cells_def nth_append)
  qed
  with assms(1-4) show ?thesis
    by (simp add: holds_def)
qed

section \<open>Reallocation\<close>

lemma operator_delete_eq:
  "0 < b \<Longrightarrow> heap s (b, 0) \<noteq> None \<Longrightarrow>
   operator_delete (b, 0) s =
     s\<lparr>heap := (\<lambda>p. if fst p = b then None else heap s p), trace := trace s @ [Freed b]\<rparr>"
  by (simp add: operator_delete_def nullptr_def log_def)

lemma holds_buffer:
  assumes "holds s v xs"
  shows "buffer_m (data_m v) = (fst (buffer_m (data_m v)), 0)"
    and "(capacity_m (data_m v) = 0) = (fst (buffer_m (data_m v)) = 0)"
    and "fst (buffer_m (data_m v)) \<le> allocated s"
    and "size_m v = length xs" and "length xs \<le> capacity_m (data_m v)"
    and "capacity_m (data_m v) < 2 ^ 63"
  using assms by (auto simp: holds_def nullptr_def prod_eq_iff split: if_splits)

text \<open>The last three steps of a reallocation: destroy the old elements, swap the storage
  in, release the old block (the destructor of the local \<open>new_data\<close>).\<close>

lemma commit_effect:
  assumes buf: "buffer_m (data_m v) = (b, 0)"
      and cap: "(capacity_m (data_m v) = 0) = (b = 0)"
      and live: "\<forall>i<size_m v. \<exists>x. heap s (b, 0 + i) = Some (Live x)"
      and blk: "0 < b \<longrightarrow> heap s (b, 0) \<noteq> None"
      and s': "s' = (let s1 = destroy_n (GetAddress (data_m v)) (size_m v) s;
                         (d, nd) = RawMemory_Swap (data_m v) new_data
                     in RawMemory_dtor nd (store this (v\<lparr>data_m := d\<rparr>) s1))"
  shows "objs s' = (objs s)(this := v\<lparr>data_m := (data_m v)\<lparr>buffer_m := buffer_m new_data,
                                                           capacity_m := capacity_m new_data\<rparr>\<rparr>) \<and>
         allocated s' = allocated s \<and> ub s' = ub s \<and> oom s' = oom s \<and>
         (\<forall>p. fst p \<noteq> b \<longrightarrow> heap s' p = heap s p) \<and>
         trace s' = trace s @ map (\<lambda>i. Destroyed (Cell (b, i))) [0..<size_m v] @
                     (if b = 0 then [] else [Freed b])"
proof -
  let ?s1 = "destroy_n (b, 0) (size_m v) s"
  from destroy_n_effect [OF live] have
    f1: "frame s ?s1" and
    h1: "heap ?s1 = (\<lambda>p. if fst p = b \<and> 0 \<le> snd p \<and> snd p < 0 + size_m v then Some Raw else heap s p)" and
    t1: "trace ?s1 = trace s @ map (\<lambda>i. Destroyed (Cell (b, 0 + i))) [0..<size_m v]"
    by blast+
  let ?w = "v\<lparr>data_m := (data_m v)\<lparr>buffer_m := buffer_m new_data, capacity_m := capacity_m new_data\<rparr>\<rparr>"
  let ?s2 = "store this ?w ?s1"
  have s'_eq: "s' = operator_delete (b, 0) ?s2"
    unfolding s' by (simp add: Let_def GetAddress_def buf RawMemory_Swap_def RawMemory_dtor_def Deallocate_def)
  show ?thesis
  proof (cases "b = 0")
    case True
    then have "s' = ?s2"
      unfolding s'_eq by (simp add: operator_delete_def nullptr_def)
    with f1 h1 t1 True show ?thesis
      by (simp add: frame_def store_def)
  next
    case False
    with blk have "heap ?s2 (b, 0) \<noteq> None"
      by (simp add: store_def h1)
    with False have "s' = ?s2\<lparr>heap := (\<lambda>p. if fst p = b then None else heap ?s2 p),
                             trace := trace ?s2 @ [Freed b]\<rparr>"
      unfolding s'_eq by (intro operator_delete_eq) simp_all
    with f1 h1 t1 False show ?thesis
      by (simp add: frame_def store_def)
  qed
qed

lemma RawMemory_ctor_eq:
  "nc \<noteq> 0 \<Longrightarrow>
   RawMemory_ctor nc s =
     (if next_fails (oom s) \<or> 2 ^ 63 \<le> nc then (Inl bad_alloc, s\<lparr>oom := tl (oom s)\<rparr>)
      else (Inr \<lparr>buffer_m = (Suc (allocated s), 0), capacity_m = nc\<rparr>,
            s\<lparr>oom := tl (oom s),
              heap := (\<lambda>p. if fst p = Suc (allocated s)
                            then (if snd p < nc then Some Raw else None) else heap s p),
              allocated := Suc (allocated s),
              trace := trace s @ [Allocated (Suc (allocated s)) nc]\<rparr>))"
  by (simp add: RawMemory_ctor_def Allocate_def operator_new_def and_then_def ret_def log_def Let_def)

lemma Reserve_unfold:
  assumes "buffer_m (data_m (objs s this)) = (b, 0)" and "size_m (objs s this) = n"
      and "capacity_m (data_m (objs s this)) < nc"
      and "\<not> (next_fails (oom s) \<or> 2 ^ 63 \<le> nc)"
  shows "Reserve T this nc s =
     (case (if is_nothrow_move_constructible T \<or> \<not> is_copy_constructible T
            then uninitialized_move_n T (b, 0) n (Suc (allocated s), 0)
            else uninitialized_copy_n (b, 0) n (Suc (allocated s), 0))
           (s\<lparr>oom := tl (oom s),
              heap := (\<lambda>p. if fst p = Suc (allocated s)
                            then (if snd p < nc then Some Raw else None) else heap s p),
              allocated := Suc (allocated s),
              trace := trace s @ [Allocated (Suc (allocated s)) nc]\<rparr>) of
        (Inl e, s2) \<Rightarrow> (Inl e, operator_delete (Suc (allocated s), 0) s2)
      | (Inr u, s2) \<Rightarrow>
          (Inr (),
           let s3 = destroy_n (GetAddress (data_m (objs s this))) (size_m (objs s this)) s2;
               (d, nd) = RawMemory_Swap (data_m (objs s this))
                           \<lparr>buffer_m = (Suc (allocated s), 0), capacity_m = nc\<rparr>
           in RawMemory_dtor nd (store this ((objs s this)\<lparr>data_m := d\<rparr>) s3)))"
proof -
  have nc0: "nc \<noteq> 0"
    using assms(3) by simp
  show ?thesis
    using assms
    by (simp add: Reserve_def and_then_def fetch_def RawMemory_Capacity_def GetAddress_def
        on_exception_def step_def RawMemory_dtor_def Deallocate_def RawMemory_ctor_eq [OF nc0]
        split: prod.splits sum.splits cong: if_cong)
qed

lemma Reserve_bad_alloc:
  assumes "capacity_m (data_m (objs s this)) < nc"
      and "next_fails (oom s) \<or> 2 ^ 63 \<le> nc"
  shows "Reserve T this nc s = (Inl bad_alloc, s\<lparr>oom := tl (oom s)\<rparr>)"
proof -
  have nc0: "nc \<noteq> 0"
    using assms(1) by simp
  show ?thesis
    using assms
    by (simp add: Reserve_def and_then_def fetch_def RawMemory_Capacity_def
        RawMemory_ctor_eq [OF nc0])
qed

lemma Reserve_grow:
  assumes h: "holds s (objs s this) xs"
      and gt: "capacity_m (data_m (objs s this)) < nc"
      and run: "Reserve T this nc s = (r, s')"
  shows "case r of
           Inr u \<Rightarrow>
             buffer_m (data_m (objs s' this)) = (Suc (allocated s), 0) \<and>
             capacity_m (data_m (objs s' this)) = nc \<and>
             size_m (objs s' this) = length xs \<and>
             (\<forall>a. a \<noteq> this \<longrightarrow> objs s' a = objs s a) \<and>
             holds s' (objs s' this) xs \<and> ub s' = ub s \<and> allocated s' = Suc (allocated s) \<and>
             (\<forall>p. fst p \<noteq> fst (buffer_m (data_m (objs s this))) \<longrightarrow> fst p \<noteq> Suc (allocated s) \<longrightarrow>
                  heap s' p = heap s p) \<and>
             trace s' = trace s @ Allocated (Suc (allocated s)) nc #
               map (\<lambda>i. (if is_nothrow_move_constructible T \<or> \<not> is_copy_constructible T
                          then MoveConstructed else CopyConstructed)
                           (Cell (Suc (allocated s), i))
                           (Cell (fst (buffer_m (data_m (objs s this))), i))) [0..<length xs] @
               map (\<lambda>i. Destroyed (Cell (fst (buffer_m (data_m (objs s this))), i))) [0..<length xs] @
               (if fst (buffer_m (data_m (objs s this))) = 0 then []
                else [Freed (fst (buffer_m (data_m (objs s this))))])
         | Inl e \<Rightarrow>
             (e = bad_alloc \<or> \<not> is_nothrow_move_constructible T) \<and>
             (e = bad_alloc \<or> is_copy_constructible T \<longrightarrow>
                objs s' = objs s \<and> ub s' = ub s \<and> holds s' (objs s' this) xs \<and>
                (\<forall>p. fst p \<noteq> Suc (allocated s) \<longrightarrow> heap s' p = heap s p))"
proof -
  define v where "v = objs s this"
  define b where "b = fst (buffer_m (data_m v))"
  define nb where "nb = Suc (allocated s)"
  define n where "n = length xs"
  have hv: "holds s v xs"
    using h by (simp add: v_def)
  note hb = holds_buffer [OF hv, folded b_def]
  have nc0: "nc \<noteq> 0"
    using gt by simp
  have ne: "b \<noteq> nb"
    using hb(3) by (simp add: nb_def)
  have cells: "\<And>i. i < capacity_m (data_m v) \<Longrightarrow>
                 heap s (b, i) = Some (if i < length xs then Live (xs ! i) else Raw)"
    unfolding b_def by (rule holds_cells [OF hv])
  have bufv: "buffer_m (data_m v) = (b, 0)" and szv: "size_m v = n"
    using hb by (simp_all add: n_def)
  show ?thesis
  proof (cases "next_fails (oom s) \<or> 2 ^ 63 \<le> nc")
    case True
    with run have r: "r = Inl bad_alloc" and s': "s' = s\<lparr>oom := tl (oom s)\<rparr>"
      by (simp_all add: Reserve_bad_alloc [OF gt])
    have "holds s' (objs s this) xs = holds s (objs s this) xs"
      by (rule holds_frame) (simp_all add: s')
    with h have "holds s' (objs s' this) xs"
      by (simp add: s')
    then show ?thesis
      unfolding r by (simp add: s')
  next
    case False
    let ?s1 = "s\<lparr>oom := tl (oom s),
              heap := (\<lambda>p. if fst p = Suc (allocated s)
                            then (if snd p < nc then Some Raw else None) else heap s p),
              allocated := Suc (allocated s),
              trace := trace s @ [Allocated (Suc (allocated s)) nc]\<rparr>"
    let ?reloc = "if is_nothrow_move_constructible T \<or> \<not> is_copy_constructible T
            then uninitialized_move_n T (b, 0) n (Suc (allocated s), 0)
            else uninitialized_copy_n (b, 0) n (Suc (allocated s), 0)"
    define s1 where "s1 = ?s1"
    obtain r2 s2 where r2: "?reloc ?s1 = (r2, s2)"
      by (cases "?reloc ?s1")
    note unf = Reserve_unfold [OF bufv [unfolded v_def] szv [unfolded v_def] gt False, of T]
    from run have run': "(r, s') =
      (case r2 of
         Inl e \<Rightarrow> (Inl e, operator_delete (nb, 0) s2)
       | Inr u \<Rightarrow>
           (Inr (),
            let s3 = destroy_n (GetAddress (data_m v)) (size_m v) s2;
                (d, nd) = RawMemory_Swap (data_m v) \<lparr>buffer_m = (nb, 0), capacity_m = nc\<rparr>
            in RawMemory_dtor nd (store this (v\<lparr>data_m := d\<rparr>) s3)))"
      unfolding unf r2 v_def nb_def by (simp split: sum.splits)
    note r2 = r2 [folded s1_def nb_def]
    have s1_eq: "s1 = s\<lparr>oom := tl (oom s),
              heap := (\<lambda>p. if fst p = nb then (if snd p < nc then Some Raw else None) else heap s p),
              allocated := nb, trace := trace s @ [Allocated nb nc]\<rparr>"
      by (simp add: s1_def nb_def)
    have src: "\<forall>i<n. \<exists>x. heap s1 (b, 0 + i) = Some (Live x)"
      using cells hb(5) ne by (simp add: s1_eq n_def)
    have dst: "\<forall>i<n. heap s1 (nb, 0 + i) = Some Raw"
      using hb(5) gt by (simp add: s1_eq n_def v_def)
    have bound: "0 + n < (2::nat) ^ 64"
    proof -
      have "n < (2::nat) ^ 63" using hb(5,6) by (simp add: n_def)
      also have "(2::nat) ^ 63 < 2 ^ 64" by simp
      finally show ?thesis by simp
    qed
    from relocation_effect [OF r2 ne src dst bound]
    have fr: "frame s1 s2" and
      c: "case r2 of
            Inr u \<Rightarrow>
              (\<forall>i<n. heap s2 (nb, 0 + i) = heap s1 (b, 0 + i)) \<and>
              (\<forall>i<n. \<exists>y. heap s2 (b, 0 + i) = Some (Live y)) \<and>
              (\<forall>p. \<not> (fst p = nb \<and> 0 \<le> snd p \<and> snd p < 0 + n) \<longrightarrow>
                   \<not> (fst p = b \<and> 0 \<le> snd p \<and> snd p < 0 + n) \<longrightarrow> heap s2 p = heap s1 p) \<and>
              trace s2 = trace s1 @
                map (\<lambda>i. (if is_nothrow_move_constructible T \<or> \<not> is_copy_constructible T
                           then MoveConstructed else CopyConstructed)
                            (Cell (nb, 0 + i)) (Cell (b, 0 + i))) [0..<n]
          | Inl e \<Rightarrow>
              e = element_failure \<and> \<not> is_nothrow_move_constructible T \<and>
              (is_copy_constructible T \<longrightarrow> heap s2 = heap s1)"
      by blast+
    show ?thesis
    proof (cases r2)
      case (Inl e)
      with run' have r: "r = Inl e" and s': "s' = operator_delete (nb, 0) s2"
        by simp_all
      from c Inl have e: "e = element_failure" and nt: "\<not> is_nothrow_move_constructible T"
        and hc: "is_copy_constructible T \<longrightarrow> heap s2 = heap s1"
        by simp_all
      have "objs s' = objs s \<and> ub s' = ub s \<and> holds s' (objs s' this) xs \<and>
            (\<forall>p. fst p \<noteq> nb \<longrightarrow> heap s' p = heap s p)" if "is_copy_constructible T"
      proof -
        from that hc have h2: "heap s2 = heap s1" by simp
        then have "heap s2 (nb, 0) \<noteq> None"
          using nc0 by (simp add: s1_eq)
        then have s'': "s' = s2\<lparr>heap := (\<lambda>p. if fst p = nb then None else heap s2 p),
                               trace := trace s2 @ [Freed nb]\<rparr>"
          unfolding s' by (intro operator_delete_eq) (simp_all add: nb_def)
        have o: "objs s' = objs s" and u: "ub s' = ub s" and al: "allocated s' = nb"
          using fr by (simp_all add: s'' frame_def s1_eq)
        have hp: "\<forall>p. fst p \<noteq> nb \<longrightarrow> heap s' p = heap s p"
          by (simp add: s'' h2 s1_eq)
        have "holds s' v xs"
        proof (rule holdsI)
          show "size_m v = length xs" "length xs \<le> capacity_m (data_m v)"
               "capacity_m (data_m v) < 2 ^ 63"
            using hb by simp_all
          show "if capacity_m (data_m v) = 0 then buffer_m (data_m v) = nullptr
                else snd (buffer_m (data_m v)) = 0 \<and> 0 < fst (buffer_m (data_m v)) \<and>
                     fst (buffer_m (data_m v)) \<le> allocated s'"
            using hv hb(3) by (simp add: holds_def al nb_def b_def)
          show "\<forall>i<capacity_m (data_m v). heap s' (fst (buffer_m (data_m v)), i) =
                  Some (if i < length xs then Live (xs ! i) else Raw)"
            using cells ne hp by (simp add: b_def [symmetric])
        qed
        with o u hp show ?thesis
          by (simp add: v_def)
      qed
      with e nt show ?thesis
        unfolding r by (auto simp: nb_def)
    next
      case (Inr u)
      define s3 where "s3 = (let s3 = destroy_n (GetAddress (data_m v)) (size_m v) s2;
                (d, nd) = RawMemory_Swap (data_m v) \<lparr>buffer_m = (nb, 0), capacity_m = nc\<rparr>
            in RawMemory_dtor nd (store this (v\<lparr>data_m := d\<rparr>) s3))"
      from run' Inr have r: "r = Inr ()" and s': "s' = s3"
        by (simp_all add: s3_def)
      from c Inr have
        d: "\<forall>i<n. heap s2 (nb, i) = heap s1 (b, i)" and
        sl: "\<forall>i<n. \<exists>y. heap s2 (b, 0 + i) = Some (Live y)" and
        o: "\<forall>p. \<not> (fst p = nb \<and> snd p < n) \<longrightarrow> \<not> (fst p = b \<and> snd p < n) \<longrightarrow> heap s2 p = heap s1 p" and
        t: "trace s2 = trace s1 @
                map (\<lambda>i. (if is_nothrow_move_constructible T \<or> \<not> is_copy_constructible T
                           then MoveConstructed else CopyConstructed)
                            (Cell (nb, i)) (Cell (b, i))) [0..<n]"
        by simp_all
      have blk: "0 < b \<longrightarrow> heap s2 (b, 0) \<noteq> None"
      proof
        assume "0 < b"
        with hb(2) have c0: "0 < capacity_m (data_m v)" by simp
        show "heap s2 (b, 0) \<noteq> None"
        proof (cases "0 < n")
          case True
          with sl show ?thesis by force
        next
          case False
          with o ne have "heap s2 (b, 0) = heap s1 (b, 0)" by simp
          with cells [OF c0] ne show ?thesis by (simp add: s1_eq)
        qed
      qed
      from commit_effect [OF bufv hb(2) sl [folded szv] blk s3_def]
      have ob: "objs s3 = (objs s2)(this := v\<lparr>data_m := (data_m v)\<lparr>buffer_m := (nb, 0), capacity_m := nc\<rparr>\<rparr>)"
        and al: "allocated s3 = allocated s2" and u: "ub s3 = ub s2"
        and hp: "\<forall>p. fst p \<noteq> b \<longrightarrow> heap s3 p = heap s2 p"
        and tr: "trace s3 = trace s2 @ map (\<lambda>i. Destroyed (Cell (b, i))) [0..<size_m v] @
                     (if b = 0 then [] else [Freed b])"
        by simp_all
      have fs: "objs s2 = objs s" "allocated s2 = nb" "ub s2 = ub s"
        using fr by (simp_all add: frame_def s1_eq)
      have newcells: "\<forall>i<nc. heap s3 (nb, i) = Some (if i < length xs then Live (xs ! i) else Raw)"
      proof (intro allI impI)
        fix i assume i: "i < nc"
        have "heap s3 (nb, i) = heap s2 (nb, i)"
          using hp ne by simp
        also have "\<dots> = Some (if i < length xs then Live (xs ! i) else Raw)"
        proof (cases "i < n")
          case True
          with d have "heap s2 (nb, i) = heap s1 (b, i)" by simp
          also have "\<dots> = heap s (b, i)" using ne by (simp add: s1_eq)
          also have "\<dots> = Some (if i < length xs then Live (xs ! i) else Raw)"
            using True hb(5) by (intro cells) (simp add: n_def)
          finally show ?thesis .
        next
          case False
          with o ne have "heap s2 (nb, i) = heap s1 (nb, i)" by simp
          with False i show ?thesis by (simp add: s1_eq n_def)
        qed
        finally show "heap s3 (nb, i) = Some (if i < length xs then Live (xs ! i) else Raw)" .
      qed
      have hol: "holds s3 (objs s3 this) xs"
      proof (rule holdsI)
        show "size_m (objs s3 this) = length xs"
          using hb(4) by (simp add: ob)
        show "length xs \<le> capacity_m (data_m (objs s3 this))"
          using hb(5) gt by (simp add: ob v_def)
        show "capacity_m (data_m (objs s3 this)) < 2 ^ 63"
          using False by (simp add: ob)
        show "if capacity_m (data_m (objs s3 this)) = 0 then buffer_m (data_m (objs s3 this)) = nullptr
              else snd (buffer_m (data_m (objs s3 this))) = 0 \<and>
                   0 < fst (buffer_m (data_m (objs s3 this))) \<and>
                   fst (buffer_m (data_m (objs s3 this))) \<le> allocated s3"
          using nc0 by (simp add: ob al fs nb_def)
        show "\<forall>i<capacity_m (data_m (objs s3 this)).
                heap s3 (fst (buffer_m (data_m (objs s3 this))), i) =
                Some (if i < length xs then Live (xs ! i) else Raw)"
          using newcells by (simp add: ob)
      qed
      have others: "\<forall>p. fst p \<noteq> b \<longrightarrow> fst p \<noteq> nb \<longrightarrow> heap s3 p = heap s p"
        using hp o by (simp add: s1_eq)
      have trace: "trace s3 = trace s @ Allocated nb nc #
               map (\<lambda>i. (if is_nothrow_move_constructible T \<or> \<not> is_copy_constructible T
                          then MoveConstructed else CopyConstructed)
                           (Cell (nb, i)) (Cell (b, i))) [0..<length xs] @
               map (\<lambda>i. Destroyed (Cell (b, i))) [0..<length xs] @
               (if b = 0 then [] else [Freed b])"
        unfolding tr t by (simp add: s1_eq szv n_def)
      from hol others trace show ?thesis
        unfolding r s' by (simp add: ob al u fs hb(4) b_def [symmetric] nb_def [symmetric] v_def [symmetric])
    qed
  qed
qed

end
